theory Spec2Isabelle
  imports Main "HOL-Library.Word"
begin

section \<open>Values that cross the boundary\<close>

text \<open>
  The recording server of \<^verbatim>\<open>electron/recording.ts\<close> keeps its state in module variables and
  is driven by events: RPC calls, WebSocket events, timer ticks and the completion of file and
  network operations. Every \<^verbatim>\<open>await\<close> of the source is a point where another event may run,
  so each asynchronous function is modelled by the segments between its \<^verbatim>\<open>await\<close>s, and the
  event that ends the wait carries what the awaited operation produced.
\<close>

type_synonym byte = "8 word"

type_synonym sock = nat

text \<open>A parsed JSON value, as \<^verbatim>\<open>JSON.parse\<close> returns it. Numbers are the integral ones.\<close>

datatype jsv =
    JNull
  | JBool bool
  | JNum int
  | JStr string
  | JArr "jsv list"
  | JObj "(string \<times> jsv) list"

text \<open>What a promise is rejected with: an \<^verbatim>\<open>Error\<close> object with its message, a plain value
  (the code also rejects with strings and with message payloads), or \<^verbatim>\<open>undefined\<close>.\<close>

datatype reason = JsError string | JsValue jsv | JsUndefined

text \<open>\<^verbatim>\<open>path.join(os.tmpdir(), "daily-sync-recordings", `recording-${n}.wav`)\<close>, by its \<open>n\<close>.\<close>

datatype path = Recording nat

datatype outcome = Pending | Resolved "path option" | Rejected reason

datatype command = Start | Stop

datatype level = Warn | Error

text \<open>What a tRPC procedure hands back: \<^verbatim>\<open>{success: true, filePath}\<close> (or
  \<^verbatim>\<open>{success: true}\<close>, without a path), \<^verbatim>\<open>{success: false, error}\<close>, or an exception
  leaving the procedure.\<close>

datatype rpc_result = Success "path option" | Failure jsv | Threw

text \<open>A frame as the \<^verbatim>\<open>message\<close> event delivers it: its bytes, whether the object is a
  \<^verbatim>\<open>Buffer\<close>, and the result of \<^verbatim>\<open>JSON.parse(message.toString())\<close> (\<open>None\<close> when it throws).
  \<^verbatim>\<open>JSON.parse\<close> is library code, and so is the conversion \<^verbatim>\<open>ToNumber\<close> that \<^verbatim>\<open>Buffer.from\<close>
  applies to the entries of an array: for the strings, arrays and objects among them the frame
  carries its outcome, \<open>Some i\<close> for the number made an integer (truncated; \<^verbatim>\<open>NaN\<close> and the
  infinities are 0) and \<open>None\<close> when the conversion throws.\<close>

record message =
  raw :: "byte list"
  isBuffer :: bool
  json :: "jsv option"
  toNumber :: "jsv \<Rightarrow> int option"

section \<open>State\<close>

text \<open>Where a call of \<^verbatim>\<open>recordingRouter.startSession\<close> is suspended.\<close>

datatype phase =
    AwaitGetPort
  | AwaitListen nat
  | AwaitOpenExternal
  | Polling nat
  | AwaitAudio
  | Settled
  | AwaitStop nat
  | Done

record call =
  phase :: phase
  result :: outcome
  rpc :: "rpc_result option"

text \<open>One \<^verbatim>\<open>http.Server\<close> with the \<^verbatim>\<open>WebSocketServer\<close> built on it. \<open>http_waiters\<close> are the
  promises of \<^verbatim>\<open>stopRecordingServer\<close> whose callback waits for the server's close event;
  \<open>wss_waiting\<close> says that a callback waits for the close event of the WebSocket server.\<close>

record endpoint =
  listening :: bool
  http_waiters :: "nat list"
  wss_waiting :: bool

text \<open>A running \<^verbatim>\<open>saveAudioData\<close>.\<close>

datatype save = AwaitMkdir "byte list" | AwaitWrite path "byte list" | Finished

record state =
  server :: "nat option"
  wss :: "nat option"
  recordingSocket :: "sock option"
  currentPort :: "nat option"
  audioFilePath :: "path option"
  resolveAudioPromise :: "nat option"
  rejectAudioPromise :: "nat option"
  calls :: "call list"
  endpoints :: "endpoint list"
  saves :: "save list"
  stops :: "bool list"
  files :: "path \<Rightarrow> byte list option"
  sent :: "(sock \<times> command) list"
  closed :: "sock list"
  console :: "(level \<times> string) list"

text \<open>The first seven fields are the module variables of \<^verbatim>\<open>recording.ts\<close>; a stored resolver
  or rejecter is named by the call whose promise it settles. The others are the world around
  them: the calls of \<^verbatim>\<open>startSession\<close>, the servers created, the saves in flight, the promises
  of \<^verbatim>\<open>stopRecordingServer\<close> (\<open>True\<close> once resolved), the files on disk, the commands sent
  to sockets, the sockets on which \<^verbatim>\<open>close()\<close> was called, and what \<^verbatim>\<open>console.warn\<close> and
  \<^verbatim>\<open>console.error\<close> printed (\<^verbatim>\<open>console.log\<close> is left out).\<close>

definition init :: state where
  "init = \<lparr>server = None, wss = None, recordingSocket = None, currentPort = None,
     audioFilePath = None, resolveAudioPromise = None, rejectAudioPromise = None,
     calls = [], endpoints = [], saves = [], stops = [], files = (\<lambda>_. None),
     sent = [], closed = [], console = []\<rparr>"

definition console_warn :: "string \<Rightarrow> state \<Rightarrow> state" where
  "console_warn msg s = s\<lparr>console := console s @ [(Warn, msg)]\<rparr>"

definition console_error :: "string \<Rightarrow> state \<Rightarrow> state" where
  "console_error msg s = s\<lparr>console := console s @ [(Error, msg)]\<rparr>"

definition send :: "sock \<Rightarrow> command \<Rightarrow> state \<Rightarrow> state" where
  "send ws c s = s\<lparr>sent := sent s @ [(ws, c)]\<rparr>"

section \<open>Promises\<close>

text \<open>Calling the resolver or the rejecter of a promise settles it if it is pending and does
  nothing otherwise. The continuation of the router's \<^verbatim>\<open>await\<close> is queued: phase \<open>Settled\<close>.\<close>

definition settle :: "nat \<Rightarrow> outcome \<Rightarrow> state \<Rightarrow> state" where
  "settle c out s =
     (if c < length (calls s) \<and> result (calls s ! c) = Pending
      then s\<lparr>calls := (calls s)[c := (calls s ! c)\<lparr>phase := Settled, result := out\<rparr>]\<rparr>
      else s)"

text \<open>\<^verbatim>\<open>if (rejectAudioPromise) rejectAudioPromise(r)\<close>\<close>

definition reject_pending :: "reason \<Rightarrow> state \<Rightarrow> state" where
  "reject_pending r s =
     (case rejectAudioPromise s of None \<Rightarrow> s | Some c \<Rightarrow> settle c (Rejected r) s)"

section \<open>The WebSocket handlers\<close>

text \<open>\<^verbatim>\<open>wss.on("connection", ...)\<close>\<close>

definition on_connection :: "sock \<Rightarrow> state \<Rightarrow> state" where
  "on_connection ws s =
     (case recordingSocket s of
        None \<Rightarrow> s\<lparr>recordingSocket := Some ws\<rparr>
      | Some old \<Rightarrow>
          (console_warn ''New WebSocket connection received, closing previous one.'' s)
            \<lparr>closed := closed s @ [old], recordingSocket := Some ws\<rparr>)"

text \<open>\<^verbatim>\<open>Buffer.from(array)\<close> converts every entry to a number and stores it modulo 256:
  a number as it is, \<^verbatim>\<open>true\<close> as 1, \<^verbatim>\<open>false\<close> and \<^verbatim>\<open>null\<close> as 0, and a string, an array
  or an object as \<^verbatim>\<open>ToNumber\<close> gives it. When a conversion throws, \<^verbatim>\<open>Buffer.from\<close> throws
  (\<open>None\<close>).\<close>

fun to_uint8 :: "(jsv \<Rightarrow> int option) \<Rightarrow> jsv \<Rightarrow> byte option" where
  "to_uint8 f (JNum n) = Some (word_of_int n)"
| "to_uint8 f (JBool b) = Some (if b then 1 else 0)"
| "to_uint8 f JNull = Some 0"
| "to_uint8 f v = map_option word_of_int (f v)"

definition Buffer_from :: "(jsv \<Rightarrow> int option) \<Rightarrow> jsv list \<Rightarrow> byte list option" where
  "Buffer_from f xs = those (map (to_uint8 f) xs)"

text \<open>\<^verbatim>\<open>Array.from(new Uint8Array(arrayBuffer))\<close> of \<^verbatim>\<open>recorder.js\<close>, as the JSON array that
  \<^verbatim>\<open>JSON.stringify\<close> writes and \<^verbatim>\<open>JSON.parse\<close> reads back.\<close>

definition Array_from :: "byte list \<Rightarrow> jsv list" where
  "Array_from bs = map (\<lambda>b. JNum (uint b)) bs"

text \<open>\<^verbatim>\<open>sendMessage("audioBlob", {data: dataArray})\<close> as it arrives at the host. Its array
  holds numbers only, so that no entry is converted through \<open>toNumber\<close>.\<close>

definition audioBlob_message :: "byte list \<Rightarrow> byte list \<Rightarrow> message" where
  "audioBlob_message text bs =
     \<lparr>raw = text, isBuffer = True,
      json = Some (JObj [(''type'', JStr ''audioBlob''),
                         (''payload'', JObj [(''data'', JArr (Array_from bs))])]),
      toNumber = (\<lambda>_. None)\<rparr>"

text \<open>Reading a property of a parsed value that is not \<^verbatim>\<open>null\<close>: \<open>None\<close> is \<^verbatim>\<open>undefined\<close>.\<close>

fun field :: "string \<Rightarrow> jsv \<Rightarrow> jsv option" where
  "field k (JObj kvs) = map_of kvs k"
| "field k _ = None"

text \<open>\<^verbatim>\<open>payload instanceof Object && "data" in payload\<close>\<close>

fun has_data :: "jsv option \<Rightarrow> bool" where
  "has_data (Some (JObj kvs)) = (map_of kvs ''data'' \<noteq> None)"
| "has_data _ = False"

definition payload_reason :: "jsv option \<Rightarrow> reason" where
  "payload_reason p = (case p of None \<Rightarrow> JsUndefined | Some v \<Rightarrow> JsValue v)"

text \<open>\<^verbatim>\<open>saveAudioData\<close> up to its first \<^verbatim>\<open>await\<close>: \<^verbatim>\<open>fs.mkdir\<close> is under way.\<close>

definition saveAudioData :: "byte list \<Rightarrow> state \<Rightarrow> state" where
  "saveAudioData buffer s = s\<lparr>saves := saves s @ [AwaitMkdir buffer]\<rparr>"

text \<open>The \<^verbatim>\<open>finally\<close> block.\<close>

definition saveAudioData_finally :: "state \<Rightarrow> state" where
  "saveAudioData_finally s = s\<lparr>resolveAudioPromise := None, rejectAudioPromise := None\<rparr>"

text \<open>The \<^verbatim>\<open>catch\<close> block, then \<^verbatim>\<open>finally\<close>.\<close>

definition saveAudioData_catch :: "nat \<Rightarrow> string \<Rightarrow> state \<Rightarrow> state" where
  "saveAudioData_catch k err s =
     saveAudioData_finally
       (reject_pending (JsError err)
          ((console_error ''Error saving audio file:'' s)
             \<lparr>audioFilePath := None, saves := (saves s)[k := Finished]\<rparr>))"

text \<open>\<^verbatim>\<open>fs.mkdir\<close> has settled (\<open>None\<close>: done, \<open>Some err\<close>: failed); \<open>now\<close> is \<^verbatim>\<open>Date.now()\<close>.\<close>

definition saveAudioData_mkdir :: "nat \<Rightarrow> string option \<Rightarrow> nat \<Rightarrow> state \<Rightarrow> state" where
  "saveAudioData_mkdir k res now s =
     (if k < length (saves s) then
        (case saves s ! k of
           AwaitMkdir buffer \<Rightarrow>
             (case res of
                None \<Rightarrow> s\<lparr>audioFilePath := Some (Recording now),
                          saves := (saves s)[k := AwaitWrite (Recording now) buffer]\<rparr>
              | Some err \<Rightarrow> saveAudioData_catch k err s)
         | _ \<Rightarrow> s)
      else s)"

text \<open>\<^verbatim>\<open>fs.writeFile\<close> has settled: \<open>None\<close> when the whole buffer is on disk, \<open>Some (err, left)\<close>
  when it failed and left \<open>left\<close> at the path (\<open>None\<close>: the path is as it was).\<close>

definition saveAudioData_write ::
  "nat \<Rightarrow> (string \<times> byte list option) option \<Rightarrow> state \<Rightarrow> state" where
  "saveAudioData_write k res s =
     (if k < length (saves s) then
        (case saves s ! k of
           AwaitWrite p buffer \<Rightarrow>
             (case res of
                None \<Rightarrow>
                  (let s1 = s\<lparr>files := (files s)(p := Some buffer),
                              saves := (saves s)[k := Finished]\<rparr>
                   in saveAudioData_finally
                        (case resolveAudioPromise s1 of
                           Some c \<Rightarrow> settle c (Resolved (audioFilePath s1)) s1
                         | None \<Rightarrow>
                             console_warn ''Audio saved but no promise resolver was waiting.'' s1))
              | Some (err, left) \<Rightarrow>
                  saveAudioData_catch k err
                    (s\<lparr>files := (case left of None \<Rightarrow> files s
                                  | Some bs \<Rightarrow> (files s)(p := Some bs))\<rparr>))
         | _ \<Rightarrow> s)
      else s)"

text \<open>The \<^verbatim>\<open>catch\<close> of the message handler.\<close>

definition on_message_catch :: "message \<Rightarrow> state \<Rightarrow> state" where
  "on_message_catch m s =
     (let s1 = console_error ''Failed to process WebSocket message or save audio:'' s
      in if isBuffer m then saveAudioData (raw m) s1
         else reject_pending (JsValue (JStr ''Invalid message format received''))
                (console_error ''Received non-buffer message that failed JSON parsing:'' s1))"

text \<open>\<^verbatim>\<open>ws.on("message", ...)\<close>. Reading \<^verbatim>\<open>.type\<close> of \<^verbatim>\<open>null\<close> throws inside the \<^verbatim>\<open>try\<close>,
  and so does a \<^verbatim>\<open>Buffer.from\<close> that throws: both end in the \<^verbatim>\<open>catch\<close>.
  The handler does not look at which socket the frame came from.\<close>

definition on_message :: "sock \<Rightarrow> message \<Rightarrow> state \<Rightarrow> state" where
  "on_message ws m s =
     (case json m of
        None \<Rightarrow> on_message_catch m s
      | Some v \<Rightarrow>
          (if v = JNull then on_message_catch m s
           else if field ''type'' v = Some (JStr ''status'') then s
           else if field ''type'' v = Some (JStr ''audioBlob'') \<and> has_data (field ''payload'' v)
           then
             (case Option.bind (field ''payload'' v) (field ''data'') of
                Some (JArr bufferData) \<Rightarrow>
                  (case Buffer_from (toNumber m) bufferData of
                     Some buffer \<Rightarrow> saveAudioData buffer s
                   | None \<Rightarrow> on_message_catch m s)
              | _ \<Rightarrow>
                  reject_pending (JsValue (JStr ''Invalid audio data format received''))
                    (console_error ''Received audio data is not in expected Array format:'' s))
           else if field ''type'' v = Some (JStr ''error'')
           then reject_pending (payload_reason (field ''payload'' v))
                  (console_error ''Error reported from recorder page:'' s)
           else s))"

text \<open>\<^verbatim>\<open>ws.on("close", ...)\<close>\<close>

definition on_close :: "sock \<Rightarrow> state \<Rightarrow> state" where
  "on_close ws s = (if recordingSocket s = Some ws then s\<lparr>recordingSocket := None\<rparr> else s)"

text \<open>\<^verbatim>\<open>ws.on("error", ...)\<close>\<close>

definition on_error :: "sock \<Rightarrow> string \<Rightarrow> state \<Rightarrow> state" where
  "on_error ws err s =
     (let s1 = console_error ''Recorder page WebSocket error:'' s;
          s2 = (if recordingSocket s1 = Some ws then s1\<lparr>recordingSocket := None\<rparr> else s1)
      in reject_pending (JsError err) s2)"

section \<open>Starting and stopping\<close>

definition set_phase :: "nat \<Rightarrow> phase \<Rightarrow> state \<Rightarrow> state" where
  "set_phase c ph s = s\<lparr>calls := (calls s)[c := (calls s ! c)\<lparr>phase := ph\<rparr>]\<rparr>"

definition phase_of :: "state \<Rightarrow> nat \<Rightarrow> phase option" where
  "phase_of s c = (if c < length (calls s) then Some (phase (calls s ! c)) else None)"

text \<open>\<^verbatim>\<open>server?.listening\<close>\<close>

definition server_listening :: "state \<Rightarrow> bool" where
  "server_listening s =
     (case server s of None \<Rightarrow> False
      | Some h \<Rightarrow> h < length (endpoints s) \<and> listening (endpoints s ! h))"

text \<open>\<^verbatim>\<open>!currentPort\<close>: \<^verbatim>\<open>null\<close> and 0 are falsy.\<close>

definition no_port :: "state \<Rightarrow> bool" where
  "no_port s = (case currentPort s of None \<Rightarrow> True | Some p \<Rightarrow> p = 0)"

text \<open>A call of \<^verbatim>\<open>recordingRouter.startSession\<close>: \<^verbatim>\<open>startRecordingSession\<close> enters
  \<^verbatim>\<open>startRecordingServer\<close>, which returns the running server, throws, or waits for
  \<^verbatim>\<open>getPort\<close>. With a running server the next wait is \<^verbatim>\<open>shell.openExternal\<close>.\<close>

definition startRecordingSession :: "state \<Rightarrow> state" where
  "startRecordingSession s =
     (let c = length (calls s);
          s1 = s\<lparr>calls := calls s @ [\<lparr>phase = AwaitGetPort, result = Pending, rpc = None\<rparr>]\<rparr>
      in if server_listening s1
         then (if no_port s1 then settle c (Rejected (JsError ''Server running but port unknown'')) s1
               else set_phase c AwaitOpenExternal s1)
         else s1)"

text \<open>\<^verbatim>\<open>getPort\<close> has settled. With a port, the server and the WebSocket server are created
  and \<^verbatim>\<open>listen\<close> is called.\<close>

definition startRecordingServer_port :: "nat \<Rightarrow> string + nat \<Rightarrow> state \<Rightarrow> state" where
  "startRecordingServer_port c res s =
     (if phase_of s c = Some AwaitGetPort then
        (case res of
           Inl err \<Rightarrow> settle c (Rejected (JsError err)) s
         | Inr port \<Rightarrow>
             (let h = length (endpoints s)
              in set_phase c (AwaitListen h)
                   (s\<lparr>currentPort := Some port, server := Some h, wss := Some h,
                      endpoints := endpoints s @
                        [\<lparr>listening = False, http_waiters = [], wss_waiting = False\<rparr>]\<rparr>)))
      else s)"

text \<open>The callback of \<^verbatim>\<open>listen\<close> (\<open>None\<close>) or the server's error event (\<open>Some err\<close>).\<close>

definition startRecordingServer_listen :: "nat \<Rightarrow> string option \<Rightarrow> state \<Rightarrow> state" where
  "startRecordingServer_listen c res s =
     (case phase_of s c of
        Some (AwaitListen h) \<Rightarrow>
          (case res of
             None \<Rightarrow> set_phase c AwaitOpenExternal
                       (s\<lparr>endpoints := (endpoints s)[h := (endpoints s ! h)\<lparr>listening := True\<rparr>]\<rparr>)
           | Some err \<Rightarrow> settle c (Rejected (JsError err)) (console_error ''Failed to start server:'' s))
      | _ \<Rightarrow> s)"

text \<open>\<^verbatim>\<open>shell.openExternal\<close> has settled; on success the interval is set with \<^verbatim>\<open>checks = 0\<close>.\<close>

definition startRecordingSession_opened :: "nat \<Rightarrow> string option \<Rightarrow> state \<Rightarrow> state" where
  "startRecordingSession_opened c res s =
     (if phase_of s c = Some AwaitOpenExternal then
        (case res of
           None \<Rightarrow> set_phase c (Polling 0) s
         | Some err \<Rightarrow> settle c (Rejected (JsError err)) s)
      else s)"

text \<open>One run of the interval callback, and, when it resolves, the rest of
  \<^verbatim>\<open>startRecordingSession\<close>: the start command is sent and the resolver and rejecter are
  stored.\<close>

definition startRecordingSession_tick :: "nat \<Rightarrow> state \<Rightarrow> state" where
  "startRecordingSession_tick c s =
     (case phase_of s c of
        Some (Polling checks) \<Rightarrow>
          (case recordingSocket s of
             Some ws \<Rightarrow>
               (set_phase c AwaitAudio (send ws Start s))
                 \<lparr>resolveAudioPromise := Some c, rejectAudioPromise := Some c\<rparr>
           | None \<Rightarrow>
               if checks > 20
               then settle c (Rejected (JsError ''Timeout waiting for recorder WebSocket connection'')) s
               else set_phase c (Polling (checks + 1)) s)
      | _ \<Rightarrow> s)"

definition stopRecordingSession :: "state \<Rightarrow> state" where
  "stopRecordingSession s =
     (case recordingSocket s of
        None \<Rightarrow>
          reject_pending (JsValue (JStr ''No active connection to stop.''))
            (console_warn ''Stop command sent but no active WebSocket connection.'' s)
      | Some ws \<Rightarrow> send ws Stop s)"

text \<open>\<^verbatim>\<open>recordingRouter.stopSession\<close>: nothing in \<^verbatim>\<open>stopRecordingSession\<close> throws, so the
  \<^verbatim>\<open>try\<close> block returns \<^verbatim>\<open>{success: true}\<close>.\<close>

definition stopSession :: "state \<Rightarrow> rpc_result \<times> state" where
  "stopSession s = (Success None, stopRecordingSession s)"

text \<open>\<^verbatim>\<open>stopRecordingServer\<close>: a new promise \<open>k\<close>; \<^verbatim>\<open>wss.close(cb)\<close> and \<^verbatim>\<open>server.close(cb)\<close>
  register their callbacks, and a server that is closed stops listening at once. Without a
  server the promise is resolved on the spot. The two library calls register the callback
  also when the server is closing or closed already, and do not throw; the sockets of
  connected clients are not closed here.\<close>

definition stopRecordingServer :: "state \<Rightarrow> nat \<times> state" where
  "stopRecordingServer s =
     (let k = length (stops s);
          s1 = s\<lparr>stops := stops s @ [False]\<rparr>;
          s2 = (case wss s1 of
                  None \<Rightarrow> s1
                | Some w \<Rightarrow>
                    s1\<lparr>endpoints := (endpoints s1)[w := (endpoints s1 ! w)\<lparr>wss_waiting := True\<rparr>]\<rparr>)
      in (k, case server s2 of
               None \<Rightarrow> s2\<lparr>stops := (stops s2)[k := True]\<rparr>
             | Some h \<Rightarrow>
                 s2\<lparr>endpoints := (endpoints s2)[h := (endpoints s2 ! h)
                      \<lparr>listening := False, http_waiters := http_waiters (endpoints s2 ! h) @ [k]\<rparr>]\<rparr>))"

text \<open>The close event of WebSocket server \<open>w\<close> runs the callback registered by
  \<^verbatim>\<open>wss.close\<close>.\<close>

definition on_wss_closed :: "nat \<Rightarrow> state \<Rightarrow> state" where
  "on_wss_closed w s =
     (if w < length (endpoints s) \<and> wss_waiting (endpoints s ! w)
      then s\<lparr>wss := None, recordingSocket := None,
             endpoints := (endpoints s)[w := (endpoints s ! w)\<lparr>wss_waiting := False\<rparr>]\<rparr>
      else s)"

text \<open>The close event of HTTP server \<open>h\<close> runs the callbacks registered by
  \<^verbatim>\<open>server.close\<close>: each resolves its promise.\<close>

definition resolve_stops :: "nat list \<Rightarrow> bool list \<Rightarrow> bool list" where
  "resolve_stops ks bs = fold (\<lambda>k bs. bs[k := True]) ks bs"

definition on_http_closed :: "nat \<Rightarrow> state \<Rightarrow> state" where
  "on_http_closed h s =
     (if h < length (endpoints s) \<and> http_waiters (endpoints s ! h) \<noteq> []
      then s\<lparr>server := None, currentPort := None,
             stops := resolve_stops (http_waiters (endpoints s ! h)) (stops s),
             endpoints := (endpoints s)[h := (endpoints s ! h)\<lparr>http_waiters := []\<rparr>]\<rparr>
      else s)"

section \<open>The router around a session\<close>

fun truthy :: "jsv \<Rightarrow> bool" where
  "truthy JNull = False"
| "truthy (JBool b) = b"
| "truthy (JNum n) = (n \<noteq> 0)"
| "truthy (JStr t) = (t \<noteq> [])"
| "truthy (JArr _) = True"
| "truthy (JObj _) = True"

text \<open>\<^verbatim>\<open>error.message || "Failed to start recording session"\<close>, in the \<^verbatim>\<open>catch\<close> of
  \<^verbatim>\<open>startSession\<close>. Reading \<^verbatim>\<open>.message\<close> of \<^verbatim>\<open>null\<close> or \<^verbatim>\<open>undefined\<close> throws.\<close>

definition startSession_failure :: "reason \<Rightarrow> rpc_result" where
  "startSession_failure r =
     (case r of
        JsError m \<Rightarrow> Failure (JStr (if m = [] then ''Failed to start recording session'' else m))
      | JsUndefined \<Rightarrow> Threw
      | JsValue JNull \<Rightarrow> Threw
      | JsValue v \<Rightarrow>
          (case field ''message'' v of
             Some w \<Rightarrow> Failure (if truthy w then w else JStr ''Failed to start recording session'')
           | None \<Rightarrow> Failure (JStr ''Failed to start recording session'')))"

definition return_rpc :: "nat \<Rightarrow> rpc_result \<Rightarrow> state \<Rightarrow> state" where
  "return_rpc c r s = s\<lparr>calls := (calls s)[c := (calls s ! c)\<lparr>phase := Done, rpc := Some r\<rparr>]\<rparr>"

text \<open>The continuation of \<^verbatim>\<open>await startRecordingSession()\<close> in call \<open>c\<close>: with a path the
  procedure returns; with a rejection the \<^verbatim>\<open>catch\<close> block calls \<^verbatim>\<open>stopRecordingServer\<close> and
  waits for its promise.\<close>

definition startSession_settled :: "nat \<Rightarrow> state \<Rightarrow> state" where
  "startSession_settled c s =
     (if phase (calls s ! c) = Settled then
        (case result (calls s ! c) of
           Resolved p \<Rightarrow> return_rpc c (Success p) s
         | Rejected r \<Rightarrow>
             (case stopRecordingServer (console_error ''tRPC: Error in startSession:'' s) of
                (k, s') \<Rightarrow> set_phase c (AwaitStop k) s')
         | Pending \<Rightarrow> s)
      else s)"

text \<open>The continuation of \<^verbatim>\<open>await stopRecordingServer()\<close> in call \<open>c\<close>.\<close>

definition startSession_stopped :: "nat \<Rightarrow> state \<Rightarrow> state" where
  "startSession_stopped c s =
     (case phase (calls s ! c) of
        AwaitStop k \<Rightarrow>
          (if k < length (stops s) \<and> stops s ! k then
             (case result (calls s ! c) of
                Rejected r \<Rightarrow> return_rpc c (startSession_failure r) s
              | _ \<Rightarrow> s)
           else s)
      | _ \<Rightarrow> s)"

definition router_resume :: "nat \<Rightarrow> state \<Rightarrow> state" where
  "router_resume c s = startSession_stopped c (startSession_settled c s)"

text \<open>After a handler has run, the continuations it has made ready run before the next event.\<close>

fun resume_all :: "nat \<Rightarrow> state \<Rightarrow> state" where
  "resume_all 0 s = s"
| "resume_all (Suc n) s = router_resume n (resume_all n s)"

definition microtasks :: "state \<Rightarrow> state" where
  "microtasks s = resume_all (length (calls s)) s"

section \<open>Events\<close>

datatype event =
    StartSession
  | GotPort nat "string + nat"
  | Listen nat "string option"
  | OpenedExternal nat "string option"
  | Tick nat
  | StopSession
  | StopServer
  | WssClosed nat
  | HttpClosed nat
  | Connection sock
  | Message sock message
  | SockClose sock
  | SockError sock string
  | MkdirDone nat "string option" nat
  | WriteDone nat "(string \<times> byte list option) option"

fun handle :: "event \<Rightarrow> state \<Rightarrow> state" where
  "handle StartSession s = startRecordingSession s"
| "handle (GotPort c res) s = startRecordingServer_port c res s"
| "handle (Listen c res) s = startRecordingServer_listen c res s"
| "handle (OpenedExternal c res) s = startRecordingSession_opened c res s"
| "handle (Tick c) s = startRecordingSession_tick c s"
| "handle StopSession s = snd (stopSession s)"
| "handle StopServer s = snd (stopRecordingServer s)"
| "handle (WssClosed w) s = on_wss_closed w s"
| "handle (HttpClosed h) s = on_http_closed h s"
| "handle (Connection ws) s = on_connection ws s"
| "handle (Message ws m) s = on_message ws m s"
| "handle (SockClose ws) s = on_close ws s"
| "handle (SockError ws err) s = on_error ws err s"
| "handle (MkdirDone k res now) s = saveAudioData_mkdir k res now s"
| "handle (WriteDone k res) s = saveAudioData_write k res s"

definition step :: "event \<Rightarrow> state \<Rightarrow> state" where
  "step e s = microtasks (handle e s)"

definition run :: "event list \<Rightarrow> state \<Rightarrow> state" where
  "run es s = fold step es s"

section \<open>Runs used as examples\<close>

text \<open>\<^verbatim>\<open>sendMessage("error", message)\<close> of the page, as it arrives at the host.\<close>

definition error_message :: "byte list \<Rightarrow> string \<Rightarrow> message" where
  "error_message text msg =
     \<lparr>raw = text, isBuffer = True,
      json = Some (JObj [(''type'', JStr ''error''), (''payload'', JStr msg)]),
      toNumber = (\<lambda>_. None)\<rparr>"

text \<open>A session is started, the server listens on 9000, the page opens, client 1 connects and
  the next tick sends the start command: call 0 waits for its audio.\<close>

definition session_active :: "event list" where
  "session_active =
     [StartSession, GotPort 0 (Inr 9000), Listen 0 None, OpenedExternal 0 None,
      Connection 1, Tick 0]"

text \<open>A second \<^verbatim>\<open>startSession\<close> while call 0 is waiting, and then one audio message.\<close>

definition second_start :: "event list" where
  "second_start = session_active @ [StartSession, OpenedExternal 1 None, Tick 1]"

definition second_start_audio :: "event list" where
  "second_start_audio =
     second_start @ [Message 1 (audioBlob_message [] [1, 2, 3]), MkdirDone 0 None 7, WriteDone 0 None]"

text \<open>Client 2 replaces client 1, and then a frame arrives on the socket of client 1.\<close>

definition stale_error :: "event list" where
  "stale_error = session_active @ [Connection 2, Message 1 (error_message [] ''late'')]"

definition stale_audio :: "event list" where
  "stale_audio =
     session_active @ [Connection 2, Message 1 (audioBlob_message [] [1, 2, 3]),
                       MkdirDone 0 None 7, WriteDone 0 None]"

text \<open>The audio arrives and is saved; then a second audio message arrives.\<close>

definition first_audio :: "event list" where
  "first_audio =
     session_active @ [Message 1 (audioBlob_message [] [1, 2, 3]), MkdirDone 0 None 100,
                       WriteDone 0 None]"

definition second_audio :: "event list" where
  "second_audio =
     first_audio @ [Message 1 (audioBlob_message [] [4, 5]), MkdirDone 1 None 200,
                    WriteDone 1 None]"

text \<open>Two audio messages arrive one after the other, so that two saves are under way; the
  first write finishes first, and the second write fails after one byte.\<close>

definition two_saves :: "event list" where
  "two_saves =
     session_active @ [Message 1 (audioBlob_message [] [1, 2, 3]),
                       Message 1 (audioBlob_message [] [4, 5, 6]),
                       MkdirDone 0 None 100, MkdirDone 1 None 101, WriteDone 0 None]"

definition two_saves_failed :: "event list" where
  "two_saves_failed = two_saves @ [WriteDone 1 (Some (''ENOSPC'', Some [4]))]"

text \<open>A session is pending and its client has disconnected.\<close>

definition client_gone :: "event list" where
  "client_gone = session_active @ [SockClose 1]"

text \<open>Two calls of \<^verbatim>\<open>startSession\<close> before \<^verbatim>\<open>getPort\<close> has settled for the first: each
  creates a server and both listen. Then \<^verbatim>\<open>stopRecordingServer\<close> twice in a row, and the close
  events of the WebSocket server and the HTTP server that the variables hold.\<close>

definition two_servers :: "event list" where
  "two_servers =
     [StartSession, StartSession, GotPort 0 (Inr 9000), GotPort 1 (Inr 9100),
      Listen 0 None, Listen 1 None]"

definition two_servers_stopped :: "event list" where
  "two_servers_stopped = two_servers @ [StopServer, StopServer, WssClosed 1, HttpClosed 1]"

text \<open>The page reports an error, and the router stops server 0, whose close event waits for
  the page's connection to end. A new session starts server 1; then the old page goes away
  and the close callbacks of server 0 run. Client 2 connects to server 1, the session sends
  its start command, and the page reports "denied".\<close>

definition late_close :: "event list" where
  "late_close =
     session_active @
     [Message 1 (error_message [] ''first''),
      StartSession, GotPort 1 (Inr 9100), Listen 1 None, OpenedExternal 1 None,
      SockClose 1, HttpClosed 0, WssClosed 0,
      Connection 2, Tick 1]"

definition late_close_error :: "event list" where
  "late_close_error = late_close @ [Message 2 (error_message [] ''denied'')]"

text \<open>A session is started and polls for its client; then 22 ticks of its interval, with a
  \<^verbatim>\<open>stopSession\<close> among them, and no client.\<close>

definition polling :: "event list" where
  "polling = [StartSession, GotPort 0 (Inr 9000), Listen 0 None, OpenedExternal 0 None]"

definition ticks :: "event list" where
  "ticks =
     [Tick 0, Tick 0, Tick 0, Tick 0, Tick 0, Tick 0, Tick 0, Tick 0, Tick 0, Tick 0, Tick 0,
      StopSession,
      Tick 0, Tick 0, Tick 0, Tick 0, Tick 0, Tick 0, Tick 0, Tick 0, Tick 0, Tick 0, Tick 0]"

section \<open>Predicates on states and events\<close>

text \<open>No HTTP server is listening.\<close>

definition none_listening :: "state \<Rightarrow> bool" where
  "none_listening s = list_all (\<lambda>e. \<not> listening e) (endpoints s)"

text \<open>Every handle is cleared and nothing listens.\<close>

definition torn_down :: "state \<Rightarrow> bool" where
  "torn_down s =
     (server s = None \<and> wss s = None \<and> recordingSocket s = None \<and> currentPort s = None
      \<and> none_listening s)"

text \<open>The events that do not come from a client: no connection, no frame, no close or error
  of a socket, and no completion of a save (a save begins with a frame).\<close>

fun no_client :: "event \<Rightarrow> bool" where
  "no_client (Connection ws) = False"
| "no_client (Message ws m) = False"
| "no_client (SockClose ws) = False"
| "no_client (SockError ws err) = False"
| "no_client (MkdirDone k res now) = False"
| "no_client (WriteDone k res) = False"
| "no_client _ = True"

text \<open>Call \<open>c\<close> is polling with the given value of \<^verbatim>\<open>checks\<close>, no client is registered and
  the stored rejecter is not the one of \<open>c\<close>.\<close>

definition awaiting_client :: "state \<Rightarrow> nat \<Rightarrow> nat \<Rightarrow> bool" where
  "awaiting_client s c checks =
     (c < length (calls s) \<and> phase (calls s ! c) = Polling checks
      \<and> result (calls s ! c) = Pending \<and> recordingSocket s = None
      \<and> rejectAudioPromise s \<noteq> Some c)"

text \<open>Call \<open>c\<close> has been rejected with the timeout error and no client is registered.\<close>

definition timed_out :: "state \<Rightarrow> nat \<Rightarrow> bool" where
  "timed_out s c =
     (c < length (calls s)
      \<and> result (calls s ! c) = Rejected (JsError ''Timeout waiting for recorder WebSocket connection'')
      \<and> recordingSocket s = None)"

section \<open>What the continuations leave alone\<close>

text \<open>The router's continuations touch the calls, the servers, the promises of
  \<^verbatim>\<open>stopRecordingServer\<close> and the console, and nothing else; they never change the result
  of a session.\<close>


lemma nth_upd:
  "xs[i := x] ! j = (if i = j \<and> i < length xs then x else xs ! j)"
  by (cases "i < length xs") (auto simp: list_update_beyond)

lemma stop_frame:
  "server (snd (stopRecordingServer s)) = server s"
  "wss (snd (stopRecordingServer s)) = wss s"
  "recordingSocket (snd (stopRecordingServer s)) = recordingSocket s"
  "currentPort (snd (stopRecordingServer s)) = currentPort s"
  "audioFilePath (snd (stopRecordingServer s)) = audioFilePath s"
  "resolveAudioPromise (snd (stopRecordingServer s)) = resolveAudioPromise s"
  "rejectAudioPromise (snd (stopRecordingServer s)) = rejectAudioPromise s"
  "saves (snd (stopRecordingServer s)) = saves s"
  "files (snd (stopRecordingServer s)) = files s"
  "sent (snd (stopRecordingServer s)) = sent s"
  "closed (snd (stopRecordingServer s)) = closed s"
  "calls (snd (stopRecordingServer s)) = calls s"
  "console (snd (stopRecordingServer s)) = console s"
  "length (endpoints (snd (stopRecordingServer s))) = length (endpoints s)"
  "fst (stopRecordingServer s) = length (stops s)"
  "length (stops (snd (stopRecordingServer s))) = Suc (length (stops s))"
  by (simp_all add: stopRecordingServer_def Let_def split: option.splits)

lemma stop_stops:
  "k < length (stops s) \<Longrightarrow> stops (snd (stopRecordingServer s)) ! k = stops s ! k"
  "stops (snd (stopRecordingServer s)) ! length (stops s) = (server s = None)"
  by (simp_all add: stopRecordingServer_def Let_def nth_append split: option.splits)

lemma stop_listening:
  "listening (endpoints (snd (stopRecordingServer s)) ! h) \<Longrightarrow> listening (endpoints s ! h)"
  by (auto simp add: stopRecordingServer_def Let_def nth_upd split: option.splits if_splits)

lemma stop_not_listening:
  "server s = Some h \<Longrightarrow> h < length (endpoints s)
     \<Longrightarrow> \<not> listening (endpoints (snd (stopRecordingServer s)) ! h)"
  by (simp add: stopRecordingServer_def Let_def split: option.splits)

lemma stop_waiters:
  "k \<in> set (http_waiters (endpoints s ! h))
     \<Longrightarrow> k \<in> set (http_waiters (endpoints (snd (stopRecordingServer s)) ! h))"
  by (auto simp add: stopRecordingServer_def Let_def nth_upd split: option.splits if_splits)

lemma stop_new_waiter:
  "server s = Some h \<Longrightarrow> h < length (endpoints s)
     \<Longrightarrow> length (stops s) \<in> set (http_waiters (endpoints (snd (stopRecordingServer s)) ! h))"
  by (simp add: stopRecordingServer_def Let_def split: option.splits)

lemma settled_unfold:
  "startSession_settled c s =
     (if phase (calls s ! c) = Settled then
        (case result (calls s ! c) of
           Resolved p \<Rightarrow> return_rpc c (Success p) s
         | Rejected r \<Rightarrow>
             set_phase c (AwaitStop (length (stops s)))
               (snd (stopRecordingServer (console_error ''tRPC: Error in startSession:'' s)))
         | Pending \<Rightarrow> s)
      else s)"
  by (simp add: startSession_settled_def split_beta stop_frame console_error_def split: outcome.splits)


lemmas settled_simps = settled_unfold return_rpc_def set_phase_def console_error_def stop_frame

lemma settled_frame:
  "server (startSession_settled c s) = server s"
  "wss (startSession_settled c s) = wss s"
  "recordingSocket (startSession_settled c s) = recordingSocket s"
  "currentPort (startSession_settled c s) = currentPort s"
  "audioFilePath (startSession_settled c s) = audioFilePath s"
  "resolveAudioPromise (startSession_settled c s) = resolveAudioPromise s"
  "rejectAudioPromise (startSession_settled c s) = rejectAudioPromise s"
  "saves (startSession_settled c s) = saves s"
  "files (startSession_settled c s) = files s"
  "sent (startSession_settled c s) = sent s"
  "closed (startSession_settled c s) = closed s"
  "length (calls (startSession_settled c s)) = length (calls s)"
  "length (endpoints (startSession_settled c s)) = length (endpoints s)"
  by (simp_all add: settled_simps split: outcome.splits)

lemma stopped_frame:
  "server (startSession_stopped c s) = server s"
  "wss (startSession_stopped c s) = wss s"
  "recordingSocket (startSession_stopped c s) = recordingSocket s"
  "currentPort (startSession_stopped c s) = currentPort s"
  "audioFilePath (startSession_stopped c s) = audioFilePath s"
  "resolveAudioPromise (startSession_stopped c s) = resolveAudioPromise s"
  "rejectAudioPromise (startSession_stopped c s) = rejectAudioPromise s"
  "saves (startSession_stopped c s) = saves s"
  "files (startSession_stopped c s) = files s"
  "sent (startSession_stopped c s) = sent s"
  "closed (startSession_stopped c s) = closed s"
  "length (calls (startSession_stopped c s)) = length (calls s)"
  "endpoints (startSession_stopped c s) = endpoints s"
  "stops (startSession_stopped c s) = stops s"
  "console (startSession_stopped c s) = console s"
  by (simp_all add: startSession_stopped_def return_rpc_def split: phase.splits outcome.splits)

lemma router_resume_frame:
  "server (router_resume i s) = server s"
  "wss (router_resume i s) = wss s"
  "recordingSocket (router_resume i s) = recordingSocket s"
  "currentPort (router_resume i s) = currentPort s"
  "audioFilePath (router_resume i s) = audioFilePath s"
  "resolveAudioPromise (router_resume i s) = resolveAudioPromise s"
  "rejectAudioPromise (router_resume i s) = rejectAudioPromise s"
  "saves (router_resume i s) = saves s"
  "files (router_resume i s) = files s"
  "sent (router_resume i s) = sent s"
  "closed (router_resume i s) = closed s"
  "length (calls (router_resume i s)) = length (calls s)"
  "length (endpoints (router_resume i s)) = length (endpoints s)"
  by (simp_all add: router_resume_def settled_frame stopped_frame)

lemma settled_other:
  "i \<noteq> c \<Longrightarrow> calls (startSession_settled i s) ! c = calls s ! c"
  by (simp add: settled_simps split: outcome.splits)

lemma stopped_other:
  "i \<noteq> c \<Longrightarrow> calls (startSession_stopped i s) ! c = calls s ! c"
  by (simp add: startSession_stopped_def return_rpc_def split: phase.splits outcome.splits)

lemma router_resume_other:
  "i \<noteq> c \<Longrightarrow> calls (router_resume i s) ! c = calls s ! c"
  by (simp add: router_resume_def settled_other stopped_other)

lemma settled_result:
  "result (calls (startSession_settled i s) ! c) = result (calls s ! c)"
  by (simp add: settled_simps nth_upd split: outcome.splits)

lemma stopped_result:
  "result (calls (startSession_stopped i s) ! c) = result (calls s ! c)"
  by (simp add: startSession_stopped_def return_rpc_def nth_upd split: phase.splits outcome.splits)

lemma router_resume_result:
  "result (calls (router_resume i s) ! c) = result (calls s ! c)"
  by (simp add: router_resume_def settled_result stopped_result)

lemma settled_stops:
  "length (stops s) \<le> length (stops (startSession_settled i s))"
  "k < length (stops s) \<Longrightarrow> stops (startSession_settled i s) ! k = stops s ! k"
  by (simp_all add: settled_simps stop_stops split: outcome.splits)

lemma router_resume_stops:
  "length (stops s) \<le> length (stops (router_resume i s))"
  "k < length (stops s) \<Longrightarrow> stops (router_resume i s) ! k = stops s ! k"
  by (simp_all add: router_resume_def settled_stops stopped_frame)

lemma settled_listening:
  "listening (endpoints (startSession_settled i s) ! h) \<Longrightarrow> listening (endpoints s ! h)"
  by (auto simp add: settled_simps split: outcome.splits if_splits dest!: stop_listening)

lemma router_resume_listening:
  "listening (endpoints (router_resume i s) ! h) \<Longrightarrow> listening (endpoints s ! h)"
  by (simp add: router_resume_def stopped_frame settled_listening)

lemma settled_waiters:
  "k \<in> set (http_waiters (endpoints s ! h))
     \<Longrightarrow> k \<in> set (http_waiters (endpoints (startSession_settled i s) ! h))"
  by (auto simp add: settled_simps split: outcome.splits intro!: stop_waiters)

lemma router_resume_waiters:
  "k \<in> set (http_waiters (endpoints s ! h))
     \<Longrightarrow> k \<in> set (http_waiters (endpoints (router_resume i s) ! h))"
  by (simp add: router_resume_def stopped_frame settled_waiters)

lemma settled_console:
  "set (console s) \<subseteq> set (console (startSession_settled i s))"
  by (auto simp add: settled_simps split: outcome.splits)

lemma router_resume_console:
  "set (console s) \<subseteq> set (console (router_resume i s))"
  by (simp add: router_resume_def stopped_frame settled_console)


lemma resume_all_frame:
  "server (resume_all n s) = server s"
  "wss (resume_all n s) = wss s"
  "recordingSocket (resume_all n s) = recordingSocket s"
  "currentPort (resume_all n s) = currentPort s"
  "audioFilePath (resume_all n s) = audioFilePath s"
  "resolveAudioPromise (resume_all n s) = resolveAudioPromise s"
  "rejectAudioPromise (resume_all n s) = rejectAudioPromise s"
  "saves (resume_all n s) = saves s"
  "files (resume_all n s) = files s"
  "sent (resume_all n s) = sent s"
  "closed (resume_all n s) = closed s"
  "length (calls (resume_all n s)) = length (calls s)"
  "length (endpoints (resume_all n s)) = length (endpoints s)"
  by (induction n) (simp_all add: router_resume_frame)

lemma resume_all_result:
  "result (calls (resume_all n s) ! c) = result (calls s ! c)"
  by (induction n) (simp_all add: router_resume_result)

lemma resume_all_before:
  "n \<le> c \<Longrightarrow> calls (resume_all n s) ! c = calls s ! c"
  by (induction n) (simp_all add: router_resume_other)

lemma resume_all_after:
  "c < n \<Longrightarrow> calls (resume_all n s) ! c = calls (router_resume c (resume_all c s)) ! c"
proof (induction n)
  case 0
  then show ?case by simp
next
  case (Suc n)
  show ?case
  proof (cases "c = n")
    case True
    then show ?thesis by simp
  next
    case False
    with Suc.prems have "c < n" by simp
    with Suc.IH False show ?thesis by (simp add: router_resume_other)
  qed
qed

lemma resume_all_stops:
  "length (stops s) \<le> length (stops (resume_all n s))"
  "k < length (stops s) \<Longrightarrow> stops (resume_all n s) ! k = stops s ! k"
proof (induction n)
  case 0
  { case 1 show ?case by simp }
  { case 2 show ?case by simp }
next
  case (Suc n)
  { case 1
    have "length (stops (resume_all n s)) \<le> length (stops (router_resume n (resume_all n s)))"
      by (rule router_resume_stops)
    with Suc.IH(1) show ?case by simp }
  { case 2
    with Suc.IH(1) have "k < length (stops (resume_all n s))" by simp
    then have "stops (router_resume n (resume_all n s)) ! k = stops (resume_all n s) ! k"
      by (rule router_resume_stops)
    with Suc.IH(2) 2 show ?case by simp }
qed

lemma resume_all_listening:
  "listening (endpoints (resume_all n s) ! h) \<Longrightarrow> listening (endpoints s ! h)"
  by (induction n) (auto dest: router_resume_listening)

lemma resume_all_waiters:
  "k \<in> set (http_waiters (endpoints s ! h))
     \<Longrightarrow> k \<in> set (http_waiters (endpoints (resume_all n s) ! h))"
  by (induction n) (auto intro: router_resume_waiters)

lemma resume_all_console:
  "set (console s) \<subseteq> set (console (resume_all n s))"
proof (induction n)
  case 0
  show ?case by simp
next
  case (Suc n)
  have "set (console (resume_all n s)) \<subseteq> set (console (router_resume n (resume_all n s)))"
    by (rule router_resume_console)
  with Suc show ?case by auto
qed

lemma microtasks_frame:
  "server (microtasks s) = server s"
  "wss (microtasks s) = wss s"
  "recordingSocket (microtasks s) = recordingSocket s"
  "currentPort (microtasks s) = currentPort s"
  "audioFilePath (microtasks s) = audioFilePath s"
  "resolveAudioPromise (microtasks s) = resolveAudioPromise s"
  "rejectAudioPromise (microtasks s) = rejectAudioPromise s"
  "saves (microtasks s) = saves s"
  "files (microtasks s) = files s"
  "sent (microtasks s) = sent s"
  "closed (microtasks s) = closed s"
  "length (calls (microtasks s)) = length (calls s)"
  "length (endpoints (microtasks s)) = length (endpoints s)"
  "result (calls (microtasks s) ! c) = result (calls s ! c)"
  by (simp_all add: microtasks_def resume_all_frame resume_all_result)

lemma microtasks_call:
  "c < length (calls s) \<Longrightarrow>
     calls (microtasks s) ! c = calls (router_resume c (resume_all c s)) ! c"
  by (simp add: microtasks_def resume_all_after)

lemma router_resume_idle:
  "phase (calls s ! c) \<noteq> Settled \<Longrightarrow> (\<And>k. phase (calls s ! c) \<noteq> AwaitStop k)
     \<Longrightarrow> router_resume c s = s"
  by (simp add: router_resume_def startSession_settled_def startSession_stopped_def
           split: phase.splits)

lemma microtasks_idle:
  assumes "phase (calls s ! c) \<noteq> Settled" and "\<And>k. phase (calls s ! c) \<noteq> AwaitStop k"
  shows "calls (microtasks s) ! c = calls s ! c"
proof (cases "c < length (calls s)")
  case True
  have same: "calls (resume_all c s) ! c = calls s ! c"
    by (simp add: resume_all_before)
  with assms have "router_resume c (resume_all c s) = resume_all c s"
    by (intro router_resume_idle) simp_all
  with True same show ?thesis by (simp add: microtasks_call)
next
  case False
  then show ?thesis by (simp add: microtasks_def resume_all_before)
qed

section \<open>What the handlers leave alone\<close>

lemma settle_frame:
  "server (settle c out s) = server s"
  "wss (settle c out s) = wss s"
  "recordingSocket (settle c out s) = recordingSocket s"
  "currentPort (settle c out s) = currentPort s"
  "audioFilePath (settle c out s) = audioFilePath s"
  "resolveAudioPromise (settle c out s) = resolveAudioPromise s"
  "rejectAudioPromise (settle c out s) = rejectAudioPromise s"
  "saves (settle c out s) = saves s"
  "files (settle c out s) = files s"
  "sent (settle c out s) = sent s"
  "closed (settle c out s) = closed s"
  "endpoints (settle c out s) = endpoints s"
  "stops (settle c out s) = stops s"
  "console (settle c out s) = console s"
  "length (calls (settle c out s)) = length (calls s)"
  by (simp_all add: settle_def)

lemma reject_pending_frame:
  "server (reject_pending r s) = server s"
  "wss (reject_pending r s) = wss s"
  "recordingSocket (reject_pending r s) = recordingSocket s"
  "currentPort (reject_pending r s) = currentPort s"
  "audioFilePath (reject_pending r s) = audioFilePath s"
  "resolveAudioPromise (reject_pending r s) = resolveAudioPromise s"
  "rejectAudioPromise (reject_pending r s) = rejectAudioPromise s"
  "saves (reject_pending r s) = saves s"
  "files (reject_pending r s) = files s"
  "sent (reject_pending r s) = sent s"
  "closed (reject_pending r s) = closed s"
  "endpoints (reject_pending r s) = endpoints s"
  "stops (reject_pending r s) = stops s"
  "console (reject_pending r s) = console s"
  "length (calls (reject_pending r s)) = length (calls s)"
  by (simp_all add: reject_pending_def settle_frame split: option.splits)

section \<open>Transport of the audio bytes\<close>

lemma roundtrip: "Buffer_from f (Array_from bs) = Some bs"
  unfolding Buffer_from_def Array_from_def by (induction bs) simp_all

lemma audioBlob_handled:
  "on_message ws (audioBlob_message text bs) s = saveAudioData bs s"
  "on_message ws ((audioBlob_message text bs)\<lparr>toNumber := f\<rparr>) s = saveAudioData bs s"
  by (simp_all add: on_message_def audioBlob_message_def roundtrip)

text \<open>
  C3. Every byte buffer, of any length, survives the transport: the array of numbers that the
  page builds from it decodes on the host to the same bytes, whatever \<^verbatim>\<open>ToNumber\<close> does to
  values that are not numbers; the message handler hands exactly these bytes to
  \<^verbatim>\<open>saveAudioData\<close>; and when \<^verbatim>\<open>mkdir\<close> and \<^verbatim>\<open>writeFile\<close> succeed, the recording file
  holds them.
\<close>

theorem audio_roundtrip:
  "Buffer_from f (Array_from bs) = Some bs
   \<and> handle (Message ws (audioBlob_message text bs)) s = saveAudioData bs s
   \<and> handle (Message ws ((audioBlob_message text bs)\<lparr>toNumber := f\<rparr>)) s = saveAudioData bs s
   \<and> files (run [Message ws (audioBlob_message text bs),
                  MkdirDone (length (saves s)) None now,
                  WriteDone (length (saves s)) None] s) (Recording now) = Some bs"
proof -
  let ?k = "length (saves s)"
  let ?s1 = "step (Message ws (audioBlob_message text bs)) s"
  let ?s2 = "step (MkdirDone ?k None now) ?s1"
  let ?s3 = "step (WriteDone ?k None) ?s2"
  have s1: "saves ?s1 = saves s @ [AwaitMkdir bs]"
    by (simp add: step_def microtasks_frame audioBlob_handled saveAudioData_def)
  have s2: "saves ?s2 = (saves s @ [AwaitMkdir bs])[?k := AwaitWrite (Recording now) bs]"
    by (simp add: step_def [of "MkdirDone ?k None now"] microtasks_frame saveAudioData_mkdir_def s1)
  have "files ?s3 (Recording now) = Some bs"
    by (simp add: step_def [of "WriteDone ?k None"] microtasks_frame saveAudioData_write_def s2
          Let_def saveAudioData_finally_def settle_frame console_warn_def split: option.splits)
  then show ?thesis
    by (simp add: run_def roundtrip audioBlob_handled)
qed

section \<open>The registered socket\<close>

text \<open>
  C10. The close handler and the error handler of a socket clear \<^verbatim>\<open>recordingSocket\<close> exactly
  when that socket is the registered one and leave it as it is otherwise. So when a new
  connection has replaced a socket, the late close or error event of the replaced socket
  leaves the new registration in place.
\<close>

theorem close_error_guarded:
  "recordingSocket (step (SockClose ws) s) = (if recordingSocket s = Some ws then None else recordingSocket s)
   \<and> recordingSocket (step (SockError ws err) s) = (if recordingSocket s = Some ws then None else recordingSocket s)
   \<and> recordingSocket (run [Connection new, SockClose old] s) = (if old = new then None else Some new)
   \<and> recordingSocket (run [Connection new, SockError old err] s) = (if old = new then None else Some new)"
proof -
  have c: "recordingSocket (step (SockClose w) t) = (if recordingSocket t = Some w then None else recordingSocket t)" for w t
    by (simp add: step_def microtasks_frame on_close_def)
  have e: "recordingSocket (step (SockError w x) t) = (if recordingSocket t = Some w then None else recordingSocket t)" for w x t
    by (simp add: step_def microtasks_frame on_error_def Let_def reject_pending_frame console_error_def)
  have n: "recordingSocket (step (Connection new) s) = Some new"
    by (simp add: step_def microtasks_frame on_connection_def console_warn_def split: option.splits)
  show ?thesis
    by (simp add: run_def c e n)
qed

section \<open>Evaluating the example runs\<close>

lemmas model = init_def console_warn_def console_error_def send_def settle_def reject_pending_def
  on_connection_def Buffer_from_def Array_from_def audioBlob_message_def payload_reason_def
  saveAudioData_def saveAudioData_finally_def saveAudioData_catch_def saveAudioData_mkdir_def
  saveAudioData_write_def on_message_catch_def on_message_def on_close_def on_error_def
  set_phase_def phase_of_def server_listening_def no_port_def startRecordingSession_def
  startRecordingServer_port_def startRecordingServer_listen_def startRecordingSession_opened_def
  startRecordingSession_tick_def stopRecordingSession_def stopSession_def stopRecordingServer_def
  on_wss_closed_def resolve_stops_def on_http_closed_def startSession_failure_def return_rpc_def
  startSession_settled_def startSession_stopped_def router_resume_def microtasks_def step_def run_def
  error_message_def

lemmas traces = session_active_def second_start_def second_start_audio_def stale_error_def
  stale_audio_def first_audio_def second_audio_def two_saves_def two_saves_failed_def
  client_gone_def two_servers_def two_servers_stopped_def late_close_def late_close_error_def

text \<open>
  C2. Evaluation at the failing input. After client 2 has replaced client 1, socket 1 has been
  closed and socket 2 is the registered one, and the session is still pending. An error
  message that then arrives on socket 1 rejects the session, and an audio message that arrives
  on socket 1 is written to disk and resolves the session: the message handler acts on frames
  of a replaced client.
\<close>

theorem stale_client_acts:
  "recordingSocket (run (session_active @ [Connection 2]) init) = Some 2
   \<and> closed (run (session_active @ [Connection 2]) init) = [1]
   \<and> result (calls (run (session_active @ [Connection 2]) init) ! 0) = Pending
   \<and> result (calls (run stale_error init) ! 0) = Rejected (JsValue (JStr ''late''))
   \<and> files (run stale_audio init) (Recording 7) = Some [1, 2, 3]
   \<and> result (calls (run stale_audio init) ! 0) = Resolved (Some (Recording 7))"
  by (simp add: model traces)

text \<open>
  C1, as stated, fails. With call 0 waiting for its audio, a second \<^verbatim>\<open>startSession\<close> is not
  rejected: it stays pending, sends the start command a second time and stores its own
  resolver and rejecter. The audio that arrives next resolves call 1, and call 0 stays
  pending with nothing left that could settle it.
\<close>

theorem second_start_overrides:
  "result (calls (run session_active init) ! 0) = Pending
   \<and> resolveAudioPromise (run session_active init) = Some 0
   \<and> result (calls (run (session_active @ [StartSession]) init) ! 1) = Pending
   \<and> result (calls (run second_start init) ! 1) = Pending
   \<and> phase (calls (run second_start init) ! 1) = AwaitAudio
   \<and> sent (run second_start init) = [(1, Start), (1, Start)]
   \<and> resolveAudioPromise (run second_start init) = Some 1
   \<and> rejectAudioPromise (run second_start init) = Some 1
   \<and> result (calls (run second_start_audio init) ! 1) = Resolved (Some (Recording 7))
   \<and> result (calls (run second_start_audio init) ! 0) = Pending
   \<and> resolveAudioPromise (run second_start_audio init) = None
   \<and> rejectAudioPromise (run second_start_audio init) = None"
  by (simp add: model traces)

text \<open>
  C4, as stated, fails. After the first audio has resolved the session and the resolver has
  been cleared, a second audio message is not dropped: its bytes are written to a new file and
  \<^verbatim>\<open>audioFilePath\<close> is changed. The result of the session stays as it was.
\<close>

theorem second_audio_saved:
  "result (calls (run first_audio init) ! 0) = Resolved (Some (Recording 100))
   \<and> resolveAudioPromise (run first_audio init) = None
   \<and> files (run first_audio init) (Recording 200) = None
   \<and> audioFilePath (run first_audio init) = Some (Recording 100)
   \<and> files (run second_audio init) (Recording 200) = Some [4, 5]
   \<and> audioFilePath (run second_audio init) = Some (Recording 200)
   \<and> result (calls (run second_audio init) ! 0) = Resolved (Some (Recording 100))"
  by (simp add: model traces)

text \<open>
  C9. Evaluation at the failing input. With two saves under way, the write of the first one
  resolves the session with \<^verbatim>\<open>audioFilePath\<close>, which by then names the file of the second
  save: the session is resolved with a path at which nothing has been written yet. When the
  second write fails after one byte, the path that was returned holds that one byte.
\<close>

theorem resolved_before_written:
  "result (calls (run two_saves init) ! 0) = Resolved (Some (Recording 101))
   \<and> rpc (calls (run two_saves init) ! 0) = Some (Success (Some (Recording 101)))
   \<and> files (run two_saves init) (Recording 101) = None
   \<and> result (calls (run two_saves_failed init) ! 0) = Resolved (Some (Recording 101))
   \<and> files (run two_saves_failed init) (Recording 101) = Some [4]
   \<and> audioFilePath (run two_saves_failed init) = None"
  by (simp add: model traces)

section \<open>Stopping a session without a client\<close>

text \<open>
  C8, as stated, fails. \<^verbatim>\<open>stopSession\<close> returns \<^verbatim>\<open>{success: true}\<close> to its caller when no
  client is registered, in the initial state and with a session pending whose client has
  gone, the same value that it returns with a client: what the caller receives reports no
  failure.
\<close>

theorem stopSession_returns_success:
  "recordingSocket (run client_gone init) = None
   \<and> fst (stopSession (run client_gone init)) = Success None
   \<and> recordingSocket init = None
   \<and> fst (stopSession init) = Success None
   \<and> recordingSocket (run session_active init) = Some 1
   \<and> fst (stopSession (run session_active init)) = Success None"
  by (simp add: model traces)

lemma reject_pending_result:
  "result (calls (reject_pending r s) ! c) =
     (if rejectAudioPromise s = Some c \<and> c < length (calls s) \<and> result (calls s ! c) = Pending
      then Rejected r else result (calls s ! c))"
  by (auto simp add: reject_pending_def settle_def nth_upd split: option.splits)

text \<open>
  C8, amended. When no client is registered, \<^verbatim>\<open>stopSession\<close> does not throw and returns
  \<^verbatim>\<open>{success: true}\<close>. It logs a warning; the session whose rejecter is stored, if it is
  pending, is rejected with "No active connection to stop.", and the result of every other
  call stays as it is; no file, no save under way and no stored path is changed, and nothing
  is sent.
\<close>

theorem stopSession_without_client:
  assumes "recordingSocket s = None"
  shows "fst (stopSession s) = Success None
    \<and> console (snd (stopSession s)) =
        console s @ [(Warn, ''Stop command sent but no active WebSocket connection.'')]
    \<and> result (calls (snd (stopSession s)) ! c) =
        (if rejectAudioPromise s = Some c \<and> c < length (calls s) \<and> result (calls s ! c) = Pending
         then Rejected (JsValue (JStr ''No active connection to stop.''))
         else result (calls s ! c))
    \<and> result (calls (step StopSession s) ! c) =
        (if rejectAudioPromise s = Some c \<and> c < length (calls s) \<and> result (calls s ! c) = Pending
         then Rejected (JsValue (JStr ''No active connection to stop.''))
         else result (calls s ! c))
    \<and> files (snd (stopSession s)) = files s
    \<and> saves (snd (stopSession s)) = saves s
    \<and> audioFilePath (snd (stopSession s)) = audioFilePath s
    \<and> sent (snd (stopSession s)) = sent s
    \<and> files (step StopSession s) = files s
    \<and> saves (step StopSession s) = saves s
    \<and> audioFilePath (step StopSession s) = audioFilePath s
    \<and> sent (step StopSession s) = sent s"
proof -
  let ?w = "console_warn ''Stop command sent but no active WebSocket connection.'' s"
  have eq: "stopSession s =
      (Success None, reject_pending (JsValue (JStr ''No active connection to stop.'')) ?w)"
    using assms by (simp add: stopSession_def stopRecordingSession_def)
  have w: "rejectAudioPromise ?w = rejectAudioPromise s" "calls ?w = calls s"
    "console ?w = console s @ [(Warn, ''Stop command sent but no active WebSocket connection.'')]"
    "files ?w = files s" "saves ?w = saves s" "audioFilePath ?w = audioFilePath s"
    "sent ?w = sent s"
    by (simp_all add: console_warn_def)
  show ?thesis
    by (simp add: eq step_def microtasks_frame reject_pending_frame reject_pending_result w)
qed

theorem stopSession_without_client_witness:
  "recordingSocket (run client_gone init) = None
   \<and> rejectAudioPromise (run client_gone init) = Some 0
   \<and> result (calls (run client_gone init) ! 0) = Pending
   \<and> fst (stopSession (run client_gone init)) = Success None
   \<and> console (snd (stopSession (run client_gone init))) =
        [(Warn, ''Stop command sent but no active WebSocket connection.'')]
   \<and> result (calls (step StopSession (run client_gone init)) ! 0) =
        Rejected (JsValue (JStr ''No active connection to stop.''))
   \<and> files (step StopSession (run client_gone init)) = files (run client_gone init)
   \<and> sent (step StopSession (run client_gone init)) = sent (run client_gone init)"
proof -
  have h: "recordingSocket (run client_gone init) = None"
    by (simp add: model traces)
  have e: "rejectAudioPromise (run client_gone init) = Some 0"
    "0 < length (calls (run client_gone init))"
    "result (calls (run client_gone init) ! 0) = Pending"
    "console (run client_gone init) = []"
    by (simp_all add: model traces)
  from stopSession_without_client [OF h, of 0] h e show ?thesis by simp
qed

section \<open>Stopping the server\<close>

lemma resolve_stops_length: "length (resolve_stops ks bs) = length bs"
  unfolding resolve_stops_def by (induction ks arbitrary: bs) simp_all

lemma resolve_stops_nth:
  "k < length bs \<Longrightarrow> resolve_stops ks bs ! k = (k \<in> set ks \<or> bs ! k)"
  unfolding resolve_stops_def
  by (induction ks arbitrary: bs) (auto simp: nth_upd)

lemma none_listening_iff:
  "none_listening s = (\<forall>i<length (endpoints s). \<not> listening (endpoints s ! i))"
  by (simp add: none_listening_def list_all_length)

lemma stop_none_listening:
  assumes "server s = Some h"
    and "\<And>i. i < length (endpoints s) \<Longrightarrow> i \<noteq> h \<Longrightarrow> \<not> listening (endpoints s ! i)"
  shows "none_listening (snd (stopRecordingServer s))"
  using assms
  by (auto simp add: none_listening_iff stopRecordingServer_def Let_def nth_upd split: option.splits)

lemma stop_keeps_none_listening:
  "none_listening s \<Longrightarrow> none_listening (snd (stopRecordingServer s))"
  by (auto simp add: none_listening_iff stopRecordingServer_def Let_def nth_upd split: option.splits)

lemma wss_closed_effect:
  assumes "h < length (endpoints s)" and "wss_waiting (endpoints s ! h)"
  shows "wss (on_wss_closed h s) = None" "recordingSocket (on_wss_closed h s) = None"
    "server (on_wss_closed h s) = server s" "currentPort (on_wss_closed h s) = currentPort s"
    "stops (on_wss_closed h s) = stops s"
    "length (endpoints (on_wss_closed h s)) = length (endpoints s)"
    "http_waiters (endpoints (on_wss_closed h s) ! h) = http_waiters (endpoints s ! h)"
    "none_listening (on_wss_closed h s) = none_listening s"
  using assms by (auto simp add: on_wss_closed_def none_listening_iff nth_upd)

lemma http_closed_effect:
  assumes "h < length (endpoints s)" and "http_waiters (endpoints s ! h) \<noteq> []"
  shows "server (on_http_closed h s) = None" "currentPort (on_http_closed h s) = None"
    "wss (on_http_closed h s) = wss s" "recordingSocket (on_http_closed h s) = recordingSocket s"
    "stops (on_http_closed h s) = resolve_stops (http_waiters (endpoints s ! h)) (stops s)"
    "length (endpoints (on_http_closed h s)) = length (endpoints s)"
    "wss_waiting (endpoints (on_http_closed h s) ! h) = wss_waiting (endpoints s ! h)"
    "none_listening (on_http_closed h s) = none_listening s"
  using assms by (auto simp add: on_http_closed_def none_listening_iff nth_upd)

lemma stop_twice_waiters:
  assumes "server s = Some h" and "wss s = Some h" and "h < length (endpoints s)"
  shows "http_waiters (endpoints (snd (stopRecordingServer (snd (stopRecordingServer s)))) ! h) =
           http_waiters (endpoints s ! h) @ [length (stops s), Suc (length (stops s))]"
    and "wss_waiting (endpoints (snd (stopRecordingServer (snd (stopRecordingServer s)))) ! h)"
    and "length (stops (snd (stopRecordingServer (snd (stopRecordingServer s))))) = Suc (Suc (length (stops s)))"
  using assms by (simp_all add: stopRecordingServer_def Let_def)


text \<open>
  \<^verbatim>\<open>stopRecordingServer\<close> has no failing path: it returns a promise in every state. In a
  state \<open>t\<close> without a server (never started, or stopped before) the promise is resolved at
  once and nothing else changes. In a state \<open>s\<close> in which the server that the variables hold is
  the only one that may be listening, two calls in a row return two promises, and no server is
  listening after the first call already. The close event of the HTTP server resolves both
  promises and clears \<^verbatim>\<open>server\<close> and \<^verbatim>\<open>currentPort\<close>; the close event of the WebSocket server
  clears \<^verbatim>\<open>wss\<close> and \<^verbatim>\<open>recordingSocket\<close>; once both have run, in either order, everything is
  released.
\<close>

theorem stop_twice_tracked_server:
  assumes "server s = Some h" and "wss s = Some h" and "h < length (endpoints s)"
    and "\<And>i. i < length (endpoints s) \<Longrightarrow> i \<noteq> h \<Longrightarrow> \<not> listening (endpoints s ! i)"
    and "server t = None" and "wss t = None"
  shows "stopRecordingServer t = (length (stops t), t\<lparr>stops := stops t @ [True]\<rparr>)
    \<and> fst (stopRecordingServer s) = length (stops s)
    \<and> fst (stopRecordingServer (snd (stopRecordingServer s))) = Suc (length (stops s))
    \<and> none_listening (snd (stopRecordingServer s))
    \<and> none_listening (snd (stopRecordingServer (snd (stopRecordingServer s))))
    \<and> server (on_http_closed h (snd (stopRecordingServer (snd (stopRecordingServer s))))) = None
    \<and> currentPort (on_http_closed h (snd (stopRecordingServer (snd (stopRecordingServer s))))) = None
    \<and> none_listening (on_http_closed h (snd (stopRecordingServer (snd (stopRecordingServer s)))))
    \<and> stops (on_http_closed h (snd (stopRecordingServer (snd (stopRecordingServer s))))) ! length (stops s)
    \<and> stops (on_http_closed h (snd (stopRecordingServer (snd (stopRecordingServer s))))) ! Suc (length (stops s))
    \<and> torn_down (on_http_closed h (on_wss_closed h (snd (stopRecordingServer (snd (stopRecordingServer s))))))
    \<and> stops (on_http_closed h (on_wss_closed h (snd (stopRecordingServer (snd (stopRecordingServer s)))))) ! length (stops s)
    \<and> stops (on_http_closed h (on_wss_closed h (snd (stopRecordingServer (snd (stopRecordingServer s)))))) ! Suc (length (stops s))
    \<and> torn_down (on_wss_closed h (on_http_closed h (snd (stopRecordingServer (snd (stopRecordingServer s))))))
    \<and> stops (on_wss_closed h (on_http_closed h (snd (stopRecordingServer (snd (stopRecordingServer s)))))) ! length (stops s)
    \<and> stops (on_wss_closed h (on_http_closed h (snd (stopRecordingServer (snd (stopRecordingServer s)))))) ! Suc (length (stops s))"
proof -
  let ?s1 = "snd (stopRecordingServer s)"
  let ?s2 = "snd (stopRecordingServer ?s1)"
  let ?k = "length (stops s)"
  have never: "stopRecordingServer t = (length (stops t), t\<lparr>stops := stops t @ [True]\<rparr>)"
    using assms(5,6) by (simp add: stopRecordingServer_def Let_def)
  have n1: "none_listening ?s1"
    using assms(1,4) by (rule stop_none_listening)
  have n2: "none_listening ?s2"
    using n1 by (rule stop_keeps_none_listening)
  have len: "h < length (endpoints ?s2)"
    using assms(3) by (simp add: stop_frame)
  have w: "http_waiters (endpoints ?s2 ! h) = http_waiters (endpoints s ! h) @ [?k, Suc ?k]"
    and ww: "wss_waiting (endpoints ?s2 ! h)"
    and sl: "length (stops ?s2) = Suc (Suc ?k)"
    using assms(1-3) by (rule stop_twice_waiters)+
  let ?a = "on_wss_closed h ?s2"
  let ?b = "on_http_closed h ?s2"
  have wa: "http_waiters (endpoints ?a ! h) \<noteq> []" and la: "h < length (endpoints ?a)"
    using len ww w by (simp_all add: wss_closed_effect)
  have wb: "wss_waiting (endpoints ?b ! h)" and lb: "h < length (endpoints ?b)"
    using len ww w by (simp_all add: http_closed_effect)
  have ta: "torn_down (on_http_closed h ?a)"
    using la wa len ww n2 by (simp add: torn_down_def http_closed_effect wss_closed_effect)
  have tb: "torn_down (on_wss_closed h ?b)"
    using lb wb len w n2 by (simp add: torn_down_def http_closed_effect wss_closed_effect)
  have sa: "stops (on_http_closed h ?a) ! ?k" "stops (on_http_closed h ?a) ! Suc ?k"
    using la wa len ww w sl
    by (simp_all add: http_closed_effect wss_closed_effect resolve_stops_nth)
  have sb: "stops (on_wss_closed h ?b) ! ?k" "stops (on_wss_closed h ?b) ! Suc ?k"
    using lb wb len w sl
    by (simp_all add: http_closed_effect wss_closed_effect resolve_stops_nth)
  have hb: "server ?b = None" "currentPort ?b = None" "none_listening ?b"
    "stops ?b ! ?k" "stops ?b ! Suc ?k"
    using len w n2 sl by (simp_all add: http_closed_effect resolve_stops_nth)
  show ?thesis
    using never n1 n2 ta tb sa sb hb by (simp add: stop_frame)
qed

lemma polling_state:
  "server (run polling init) = Some 0"
  "wss (run polling init) = Some 0"
  "endpoints (run polling init) = [\<lparr>listening = True, http_waiters = [], wss_waiting = False\<rparr>]"
  "recordingSocket (run polling init) = None"
  "stops (run polling init) = []"
  by (simp_all add: model polling_def)

theorem stop_twice_tracked_server_witness:
  "(server (run polling init) = Some 0 \<and> wss (run polling init) = Some 0
    \<and> 0 < length (endpoints (run polling init))
    \<and> listening (endpoints (run polling init) ! 0)
    \<and> recordingSocket (run polling init) = None
    \<and> server init = None \<and> wss init = None)
   \<and> stopRecordingServer init = (0, init\<lparr>stops := [True]\<rparr>)
   \<and> none_listening (snd (stopRecordingServer (run polling init)))
   \<and> torn_down (on_http_closed 0 (on_wss_closed 0
        (snd (stopRecordingServer (snd (stopRecordingServer (run polling init)))))))
   \<and> torn_down (on_wss_closed 0 (on_http_closed 0
        (snd (stopRecordingServer (snd (stopRecordingServer (run polling init)))))))"
proof -
  have h: "server (run polling init) = Some 0" "wss (run polling init) = Some 0"
    "0 < length (endpoints (run polling init))"
    "\<And>i. i < length (endpoints (run polling init)) \<Longrightarrow> i \<noteq> 0
        \<Longrightarrow> \<not> listening (endpoints (run polling init) ! i)"
    "server init = None" "wss init = None"
    by (simp_all add: polling_state) (simp_all add: init_def)
  have more: "listening (endpoints (run polling init) ! 0)"
    "recordingSocket (run polling init) = None" "stops init = []"
    by (simp_all add: polling_state) (simp add: init_def)
  show ?thesis
    using h(1,2,3,5,6) more stop_twice_tracked_server [OF h] by simp
qed

text \<open>
  C7. Evaluation at the failing input. Two calls of \<^verbatim>\<open>startSession\<close> that overlap in
  \<^verbatim>\<open>getPort\<close> leave two servers listening, and the variables hold the second.
  \<^verbatim>\<open>stopRecordingServer\<close> called twice in a row closes that one only: when both promises are
  resolved and every variable is cleared, the first server is still listening.
\<close>

theorem orphaned_server_listens:
  "server (run two_servers init) = Some 1
   \<and> wss (run two_servers init) = Some 1
   \<and> listening (endpoints (run two_servers init) ! 0)
   \<and> listening (endpoints (run two_servers init) ! 1)
   \<and> recordingSocket (run two_servers init) = None
   \<and> stops (run two_servers_stopped init) = [True, True]
   \<and> server (run two_servers_stopped init) = None
   \<and> wss (run two_servers_stopped init) = None
   \<and> currentPort (run two_servers_stopped init) = None
   \<and> listening (endpoints (run two_servers_stopped init) ! 0)
   \<and> \<not> listening (endpoints (run two_servers_stopped init) ! 1)
   \<and> \<not> none_listening (run two_servers_stopped init)"
  by (simp add: model traces none_listening_def)

section \<open>A settled result stays\<close>

lemma on_message_cases:
  assumes "P s"
    and "\<And>b t. P t \<Longrightarrow> P (saveAudioData b t)"
    and "\<And>x t. P t \<Longrightarrow> P (console_error x t)"
    and "\<And>r t. P t \<Longrightarrow> P (reject_pending r t)"
  shows "P (on_message ws m s)"
proof -
  have c: "P (on_message_catch m s)"
    by (simp add: on_message_catch_def Let_def assms)
  show ?thesis
    unfolding on_message_def
    by (simp add: assms c split: option.splits jsv.splits)
qed

lemmas handlers = startRecordingSession_def startRecordingServer_port_def
  startRecordingServer_listen_def startRecordingSession_opened_def startRecordingSession_tick_def
  stopRecordingSession_def stopSession_def on_wss_closed_def on_http_closed_def
  on_connection_def on_close_def on_error_def
  saveAudioData_def saveAudioData_mkdir_def saveAudioData_write_def saveAudioData_catch_def
  saveAudioData_finally_def reject_pending_def settle_def set_phase_def phase_of_def
  console_warn_def console_error_def send_def

lemma on_message_result_kept:
  assumes "c < length (calls s)" and "result (calls s ! c) \<noteq> Pending"
  shows "result (calls (on_message ws m s) ! c) = result (calls s ! c)"
proof -
  let ?P = "\<lambda>t. length (calls t) = length (calls s)
               \<and> result (calls t ! c) = result (calls s ! c)"
  have "?P (on_message ws m s)"
    using assms
    by (intro on_message_cases [where P = ?P])
       (simp_all add: saveAudioData_def console_error_def reject_pending_def settle_def nth_upd
          split: option.splits)
  then show ?thesis by simp
qed

lemma handle_result_kept:
  assumes "c < length (calls s)" and "result (calls s ! c) \<noteq> Pending"
  shows "result (calls (handle e s) ! c) = result (calls s ! c)"
proof (cases e)
  case (Message ws m)
  with assms show ?thesis by (simp add: on_message_result_kept)
qed (use assms in \<open>simp_all add: handlers stop_frame Let_def nth_upd nth_append
        split: option.splits phase.splits sum.splits save.splits prod.splits\<close>)


section \<open>Waiting for the client\<close>

lemma handle_no_client_frame:
  assumes "no_client e" and "recordingSocket s = None"
  shows "recordingSocket (handle e s) = None" "sent (handle e s) = sent s"
    "files (handle e s) = files s" "rejectAudioPromise (handle e s) = rejectAudioPromise s"
    "length (calls s) \<le> length (calls (handle e s))"
  using assms
  by (cases e; simp add: handlers stop_frame Let_def
        split: option.splits phase.splits sum.splits)+

lemma handle_no_client_call:
  assumes "no_client e" and "awaiting_client s c n" and "e \<noteq> Tick c"
  shows "calls (handle e s) ! c = calls s ! c"
  using assms
  by (cases e)
     (auto simp add: awaiting_client_def handlers stop_frame Let_def nth_upd nth_append
        split: option.splits phase.splits sum.splits)

lemma tick_polls:
  assumes "awaiting_client s c n" and "n \<le> 20"
  shows "calls (handle (Tick c) s) ! c = (calls s ! c)\<lparr>phase := Polling (Suc n)\<rparr>"
  using assms
  by (simp add: awaiting_client_def startRecordingSession_tick_def phase_of_def set_phase_def)

lemma tick_times_out:
  assumes "awaiting_client s c n" and "20 < n"
  shows "result (calls (handle (Tick c) s) ! c) =
           Rejected (JsError ''Timeout waiting for recorder WebSocket connection'')"
  using assms
  by (simp add: awaiting_client_def startRecordingSession_tick_def phase_of_def settle_def)

lemma step_frame:
  "recordingSocket (step e s) = recordingSocket (handle e s)"
  "sent (step e s) = sent (handle e s)"
  "files (step e s) = files (handle e s)"
  "rejectAudioPromise (step e s) = rejectAudioPromise (handle e s)"
  "resolveAudioPromise (step e s) = resolveAudioPromise (handle e s)"
  "audioFilePath (step e s) = audioFilePath (handle e s)"
  "saves (step e s) = saves (handle e s)"
  "server (step e s) = server (handle e s)"
  "length (calls (step e s)) = length (calls (handle e s))"
  "result (calls (step e s) ! c) = result (calls (handle e s) ! c)"
  by (simp_all add: step_def microtasks_frame)

lemma step_awaiting_other:
  assumes "awaiting_client s c n" and "no_client e" and "e \<noteq> Tick c"
  shows "awaiting_client (step e s) c n"
proof -
  have sock: "recordingSocket s = None" and len: "c < length (calls s)"
    using assms(1) by (simp_all add: awaiting_client_def)
  have same: "calls (handle e s) ! c = calls s ! c"
    using assms(2,1,3) by (rule handle_no_client_call)
  then have "phase (calls (handle e s) ! c) = Polling n"
    using assms(1) by (simp add: awaiting_client_def)
  then have "calls (step e s) ! c = calls (handle e s) ! c"
    unfolding step_def by (intro microtasks_idle) simp_all
  with same assms(1) handle_no_client_frame [OF assms(2) sock] len show ?thesis
    by (simp add: awaiting_client_def step_frame)
qed

lemma step_awaiting_tick:
  assumes "awaiting_client s c n" and "n \<le> 20"
  shows "awaiting_client (step (Tick c) s) c (Suc n)"
proof -
  have sock: "recordingSocket s = None" and len: "c < length (calls s)"
    using assms(1) by (simp_all add: awaiting_client_def)
  have t: "calls (handle (Tick c) s) ! c = (calls s ! c)\<lparr>phase := Polling (Suc n)\<rparr>"
    using assms by (rule tick_polls)
  then have "phase (calls (handle (Tick c) s) ! c) = Polling (Suc n)" by simp
  then have "calls (step (Tick c) s) ! c = calls (handle (Tick c) s) ! c"
    unfolding step_def by (intro microtasks_idle) simp_all
  with t assms(1) handle_no_client_frame [OF _ sock, of "Tick c"] len show ?thesis
    by (simp add: awaiting_client_def step_frame)
qed

lemma step_awaiting_timeout:
  assumes "awaiting_client s c n" and "20 < n"
  shows "timed_out (step (Tick c) s) c"
proof -
  have sock: "recordingSocket s = None" and len: "c < length (calls s)"
    using assms(1) by (simp_all add: awaiting_client_def)
  from tick_times_out [OF assms] handle_no_client_frame [OF _ sock, of "Tick c"] len
  show ?thesis by (simp add: timed_out_def step_frame)
qed

lemma step_timed_out:
  assumes "timed_out s c" and "no_client e"
  shows "timed_out (step e s) c"
proof -
  have sock: "recordingSocket s = None" and len: "c < length (calls s)"
    and r: "result (calls s ! c) \<noteq> Pending"
    using assms(1) by (simp_all add: timed_out_def)
  from handle_result_kept [OF len r, of e] handle_no_client_frame [OF assms(2) sock] len assms(1)
  show ?thesis by (simp add: timed_out_def step_frame)
qed

lemma step_no_client_frame:
  assumes "no_client e" and "recordingSocket s = None"
  shows "sent (step e s) = sent s" "files (step e s) = files s"
  using handle_no_client_frame [OF assms] by (simp_all add: step_frame)

lemma run_timed_out:
  assumes "timed_out s c" and "list_all no_client es"
  shows "timed_out (run es s) c \<and> sent (run es s) = sent s \<and> files (run es s) = files s"
  using assms
proof (induction es arbitrary: s)
  case Nil
  then show ?case by (simp add: run_def)
next
  case (Cons e es)
  then have e: "no_client e" and es: "list_all no_client es" by simp_all
  have sock: "recordingSocket s = None" using Cons.prems(1) by (simp add: timed_out_def)
  have "timed_out (step e s) c" using Cons.prems(1) e by (rule step_timed_out)
  from Cons.IH [OF this es] step_no_client_frame [OF e sock] show ?case
    by (simp add: run_def)
qed

lemma run_awaiting:
  assumes "awaiting_client s c n" and "n \<le> 21" and "list_all no_client es"
    and "22 \<le> n + count_list es (Tick c)"
  shows "timed_out (run es s) c \<and> sent (run es s) = sent s \<and> files (run es s) = files s"
  using assms
proof (induction es arbitrary: s n)
  case Nil
  then show ?case by simp
next
  case (Cons e es)
  then have e: "no_client e" and es: "list_all no_client es" by simp_all
  have sock: "recordingSocket s = None" using Cons.prems(1) by (simp add: awaiting_client_def)
  note fr = step_no_client_frame [OF e sock]
  show ?case
  proof (cases "e = Tick c")
    case False
    have a: "awaiting_client (step e s) c n"
      using Cons.prems(1) e False by (rule step_awaiting_other)
    have "22 \<le> n + count_list es (Tick c)" using Cons.prems(4) False by simp
    from Cons.IH [OF a Cons.prems(2) es this] fr show ?thesis by (simp add: run_def)
  next
    case True
    show ?thesis
    proof (cases "n \<le> 20")
      case le: True
      have a: "awaiting_client (step e s) c (Suc n)"
        using Cons.prems(1) le unfolding True by (rule step_awaiting_tick)
      have "22 \<le> Suc n + count_list es (Tick c)" using Cons.prems(4) True by simp
      from Cons.IH [OF a _ es this] le fr show ?thesis by (simp add: run_def)
    next
      case False
      then have "20 < n" by simp
      with Cons.prems(1) have "timed_out (step e s) c"
        unfolding True by (rule step_awaiting_timeout)
      from run_timed_out [OF this es] fr show ?thesis by (simp add: run_def)
    qed
  qed
qed

text \<open>
  C5. A call that has begun to poll (\<^verbatim>\<open>checks = 0\<close>) while no client is registered, and
  during whose wait no client connects, is rejected with the timeout error by its 22nd tick
  (500 ms apart), whatever else happens in between among the events that do not come from a
  client. Until then and afterwards no command is sent and no file is written.
\<close>

theorem connection_timeout:
  assumes "c < length (calls s)" and "phase (calls s ! c) = Polling 0"
    and "result (calls s ! c) = Pending" and "recordingSocket s = None"
    and "rejectAudioPromise s \<noteq> Some c"
    and "list_all no_client es" and "22 \<le> count_list es (Tick c)"
  shows "result (calls (run es s) ! c) =
           Rejected (JsError ''Timeout waiting for recorder WebSocket connection'')
         \<and> sent (run es s) = sent s \<and> files (run es s) = files s
         \<and> recordingSocket (run es s) = None"
proof -
  have "awaiting_client s c 0"
    using assms(1-5) by (simp add: awaiting_client_def)
  from run_awaiting [OF this _ assms(6)] assms(7) show ?thesis
    by (simp add: timed_out_def)
qed

theorem connection_timeout_witness:
  "(0 < length (calls (run polling init)) \<and> phase (calls (run polling init) ! 0) = Polling 0
    \<and> result (calls (run polling init) ! 0) = Pending \<and> recordingSocket (run polling init) = None
    \<and> rejectAudioPromise (run polling init) \<noteq> Some 0
    \<and> list_all no_client ticks \<and> 22 \<le> count_list ticks (Tick 0))
   \<and> (result (calls (run ticks (run polling init)) ! 0) =
           Rejected (JsError ''Timeout waiting for recorder WebSocket connection'')
         \<and> sent (run ticks (run polling init)) = sent (run polling init)
         \<and> files (run ticks (run polling init)) = files (run polling init)
         \<and> recordingSocket (run ticks (run polling init)) = None)"
proof -
  have h: "0 < length (calls (run polling init))" "phase (calls (run polling init) ! 0) = Polling 0"
    "result (calls (run polling init) ! 0) = Pending" "recordingSocket (run polling init) = None"
    "rejectAudioPromise (run polling init) \<noteq> Some 0"
    "list_all no_client ticks" "22 \<le> count_list ticks (Tick 0)"
    by (simp_all add: model polling_def ticks_def)
  from h connection_timeout [OF h] show ?thesis by blast
qed

section \<open>An error reported by the page\<close>

lemma resume_all_listening_from:
  "m \<le> n \<Longrightarrow> listening (endpoints (resume_all n s) ! h)
     \<Longrightarrow> listening (endpoints (resume_all m s) ! h)"
proof (induction n)
  case 0
  then show ?case by simp
next
  case (Suc n)
  show ?case
  proof (cases "m = Suc n")
    case True
    with Suc.prems show ?thesis by simp
  next
    case False
    with Suc.prems have "m \<le> n" by simp
    moreover have "listening (endpoints (resume_all n s) ! h)"
      using Suc.prems(2) by (auto dest: router_resume_listening)
    ultimately show ?thesis by (rule Suc.IH)
  qed
qed

lemma resume_all_waiters_from:
  "m \<le> n \<Longrightarrow> k \<in> set (http_waiters (endpoints (resume_all m s) ! h))
     \<Longrightarrow> k \<in> set (http_waiters (endpoints (resume_all n s) ! h))"
proof (induction n)
  case 0
  then show ?case by simp
next
  case (Suc n)
  show ?case
  proof (cases "m = Suc n")
    case True
    with Suc.prems show ?thesis by simp
  next
    case False
    with Suc.prems have "m \<le> n" by simp
    from Suc.IH [OF this Suc.prems(2)] show ?thesis
      by (simp add: router_resume_waiters)
  qed
qed

lemma resume_all_stops_from:
  "m \<le> n \<Longrightarrow> length (stops (resume_all m s)) \<le> length (stops (resume_all n s))"
proof (induction n)
  case 0
  then show ?case by simp
next
  case (Suc n)
  show ?case
  proof (cases "m = Suc n")
    case True
    then show ?thesis by simp
  next
    case False
    with Suc.prems have "m \<le> n" by simp
    from Suc.IH [OF this]
      router_resume_stops(1) [of "resume_all n s" n]
    show ?thesis by simp
  qed
qed

lemma router_resume_rejected:
  assumes "c < length (calls u)" and "phase (calls u ! c) = Settled"
    and "result (calls u ! c) = Rejected r" and "server u = Some h"
    and "h < length (endpoints u)"
  shows "calls (router_resume c u) ! c = (calls u ! c)\<lparr>phase := AwaitStop (length (stops u))\<rparr>"
    and "\<not> listening (endpoints (router_resume c u) ! h)"
    and "length (stops u) \<in> set (http_waiters (endpoints (router_resume c u) ! h))"
    and "length (stops (router_resume c u)) = Suc (length (stops u))"
proof -
  let ?u' = "console_error ''tRPC: Error in startSession:'' u"
  let ?v = "set_phase c (AwaitStop (length (stops u))) (snd (stopRecordingServer ?u'))"
  have u': "server ?u' = Some h" "h < length (endpoints ?u')" "stops ?u' = stops u"
    "calls ?u' = calls u"
    using assms by (simp_all add: console_error_def)
  have v: "startSession_settled c u = ?v"
    using assms by (simp add: settled_unfold)
  have pending: "\<not> stops (snd (stopRecordingServer ?u')) ! length (stops u)"
    using stop_stops(2) [of ?u'] u' by simp
  have stopped: "startSession_stopped c ?v = ?v"
    using assms(1) u' pending
    by (simp add: startSession_stopped_def set_phase_def stop_frame)
  have rr: "router_resume c u = ?v"
    by (simp add: router_resume_def v stopped)
  show "calls (router_resume c u) ! c = (calls u ! c)\<lparr>phase := AwaitStop (length (stops u))\<rparr>"
    using assms(1) u' by (simp add: rr set_phase_def stop_frame)
  show "\<not> listening (endpoints (router_resume c u) ! h)"
    using stop_not_listening [OF u'(1,2)] by (simp add: rr set_phase_def)
  show "length (stops u) \<in> set (http_waiters (endpoints (router_resume c u) ! h))"
    using stop_new_waiter [OF u'(1,2)] u'(3) by (simp add: rr set_phase_def)
  show "length (stops (router_resume c u)) = Suc (length (stops u))"
    using u'(3) by (simp add: rr set_phase_def stop_frame)
qed

lemma router_resume_returns:
  assumes "c < length (calls u)" and "phase (calls u ! c) = AwaitStop k"
    and "result (calls u ! c) = Rejected r" and "k < length (stops u)" and "stops u ! k"
  shows "rpc (calls (router_resume c u) ! c) = Some (startSession_failure r)"
  using assms
  by (simp add: router_resume_def startSession_settled_def startSession_stopped_def return_rpc_def)

text \<open>
  When a message of type \<^verbatim>\<open>error\<close> arrives while the stored rejecter belongs to a pending
  session, the session is rejected with exactly the payload of the message. Where \<^verbatim>\<open>server\<close>
  holds a server, the router's \<^verbatim>\<open>catch\<close> closes it: it stops listening in the same turn, while
  the procedure has not returned yet. The procedure returns its failure only when the close
  event of that server has resolved the promise of \<^verbatim>\<open>stopRecordingServer\<close>, and then
  \<^verbatim>\<open>server\<close> is cleared.
\<close>

theorem error_stops_tracked_server:
  assumes "rejectAudioPromise s = Some c" and "c < length (calls s)"
    and "result (calls s ! c) = Pending" and "rpc (calls s ! c) = None"
    and "json m = Some v" and "v \<noteq> JNull" and "field ''type'' v = Some (JStr ''error'')"
    and "server s = Some h" and "h < length (endpoints s)"
  shows "result (calls (step (Message ws m) s) ! c) = Rejected (payload_reason (field ''payload'' v))
    \<and> \<not> listening (endpoints (step (Message ws m) s) ! h)
    \<and> rpc (calls (step (Message ws m) s) ! c) = None
    \<and> rpc (calls (step (HttpClosed h) (step (Message ws m) s)) ! c) =
        Some (startSession_failure (payload_reason (field ''payload'' v)))
    \<and> server (step (HttpClosed h) (step (Message ws m) s)) = None
    \<and> \<not> listening (endpoints (step (HttpClosed h) (step (Message ws m) s)) ! h)"
proof -
  let ?r = "payload_reason (field ''payload'' v)"
  let ?t = "handle (Message ws m) s"
  let ?s' = "step (Message ws m) s"
  let ?u = "resume_all c ?t"
  let ?k = "length (stops ?u)"
  have t_eq: "?t = settle c (Rejected ?r) (console_error ''Error reported from recorder page:'' s)"
    using assms(1,5,6,7) by (simp add: on_message_def reject_pending_def console_error_def)
  have t: "calls ?t ! c = \<lparr>phase = Settled, result = Rejected ?r, rpc = None\<rparr>"
    "length (calls ?t) = length (calls s)" "server ?t = Some h"
    "length (endpoints ?t) = length (endpoints s)"
    using assms(2,3,4,8) unfolding t_eq by (simp_all add: settle_def console_error_def)
  have u: "c < length (calls ?u)" "phase (calls ?u ! c) = Settled"
    "result (calls ?u ! c) = Rejected ?r" "server ?u = Some h" "h < length (endpoints ?u)"
    "rpc (calls ?u ! c) = None"
    using t assms(2,9) by (simp_all add: resume_all_frame resume_all_before)
  note v = router_resume_rejected [OF u(1-5)]
  have n: "Suc c \<le> length (calls ?t)" using t(2) assms(2) by simp
  have s'_def: "?s' = resume_all (length (calls ?t)) ?t"
    by (simp add: step_def microtasks_def)
  have call: "calls ?s' ! c = \<lparr>phase = AwaitStop ?k, result = Rejected ?r, rpc = None\<rparr>"
    using n u(2,3,6) v(1) by (simp add: s'_def resume_all_after)
  have quiet: "\<not> listening (endpoints ?s' ! h)"
    using resume_all_listening_from [OF n, of ?t h] v(2) by (auto simp add: s'_def)
  have waits: "?k \<in> set (http_waiters (endpoints ?s' ! h))"
    using resume_all_waiters_from [OF n, of ?k ?t h] v(3) by (simp add: s'_def)
  have len: "?k < length (stops ?s')"
    using resume_all_stops_from [OF n, of ?t] v(4) by (simp add: s'_def)
  have h': "h < length (endpoints ?s')" and c': "c < length (calls ?s')"
    using t assms(2,9) by (simp_all add: s'_def resume_all_frame)
  let ?t2 = "handle (HttpClosed h) ?s'"
  let ?u2 = "resume_all c ?t2"
  have ne: "http_waiters (endpoints ?s' ! h) \<noteq> []" using waits by auto
  have t2: "calls ?t2 = calls ?s'" "server ?t2 = None" "?k < length (stops ?t2)" "stops ?t2 ! ?k"
    "\<not> listening (endpoints ?t2 ! h)"
    using h' ne waits len quiet
    by (simp_all add: on_http_closed_def resolve_stops_length resolve_stops_nth)
  have u2: "c < length (calls ?u2)" "phase (calls ?u2 ! c) = AwaitStop ?k"
    "result (calls ?u2 ! c) = Rejected ?r" "?k < length (stops ?u2)" "stops ?u2 ! ?k"
    using t2 call c' resume_all_stops(1) [where s = ?t2 and n = c]
      resume_all_stops(2) [where s = ?t2 and n = c and k = ?k]
    by (simp_all add: resume_all_frame resume_all_before)
  have "rpc (calls (step (HttpClosed h) ?s') ! c) = Some (startSession_failure ?r)"
    using router_resume_returns [OF u2] t2(1) c'
    by (simp add: step_def microtasks_call)
  moreover have "server (step (HttpClosed h) ?s') = None"
    using t2(2) by (simp add: step_frame)
  moreover have "\<not> listening (endpoints (step (HttpClosed h) ?s') ! h)"
    using t2(5) by (auto simp add: step_def microtasks_def dest: resume_all_listening)
  ultimately show ?thesis
    using call quiet by simp
qed

theorem error_stops_tracked_server_witness:
  "(rejectAudioPromise (run session_active init) = Some 0
    \<and> 0 < length (calls (run session_active init))
    \<and> result (calls (run session_active init) ! 0) = Pending
    \<and> rpc (calls (run session_active init) ! 0) = None
    \<and> json (error_message [] ''denied'') =
         Some (JObj [(''type'', JStr ''error''), (''payload'', JStr ''denied'')])
    \<and> JObj [(''type'', JStr ''error''), (''payload'', JStr ''denied'')] \<noteq> JNull
    \<and> field ''type'' (JObj [(''type'', JStr ''error''), (''payload'', JStr ''denied'')]) =
         Some (JStr ''error'')
    \<and> server (run session_active init) = Some 0
    \<and> 0 < length (endpoints (run session_active init))
    \<and> listening (endpoints (run session_active init) ! 0))
   \<and> result (calls (step (Message 1 (error_message [] ''denied'')) (run session_active init)) ! 0) =
        Rejected (JsValue (JStr ''denied''))
   \<and> \<not> listening (endpoints (step (Message 1 (error_message [] ''denied'')) (run session_active init)) ! 0)
   \<and> rpc (calls (step (Message 1 (error_message [] ''denied'')) (run session_active init)) ! 0) = None
   \<and> rpc (calls (step (HttpClosed 0) (step (Message 1 (error_message [] ''denied''))
        (run session_active init))) ! 0) = Some (Failure (JStr ''Failed to start recording session''))
   \<and> server (step (HttpClosed 0) (step (Message 1 (error_message [] ''denied''))
        (run session_active init))) = None"
proof -
  let ?v = "JObj [(''type'', JStr ''error''), (''payload'', JStr ''denied'')]"
  have h: "rejectAudioPromise (run session_active init) = Some 0"
    "0 < length (calls (run session_active init))"
    "result (calls (run session_active init) ! 0) = Pending"
    "rpc (calls (run session_active init) ! 0) = None"
    "json (error_message [] ''denied'') = Some ?v"
    "?v \<noteq> JNull"
    "field ''type'' ?v = Some (JStr ''error'')"
    "server (run session_active init) = Some 0"
    "0 < length (endpoints (run session_active init))"
    by (simp_all add: model traces)
  have l: "listening (endpoints (run session_active init) ! 0)"
    by (simp add: model traces)
  have p: "payload_reason (field ''payload'' ?v) = JsValue (JStr ''denied'')"
    "startSession_failure (JsValue (JStr ''denied'')) = Failure (JStr ''Failed to start recording session'')"
    by (simp_all add: payload_reason_def startSession_failure_def)
  from error_stops_tracked_server [OF h, of 1] h l show ?thesis
    unfolding p by blast
qed

text \<open>
  C6. Evaluation at the failing input. The close callback of an older server has cleared
  \<^verbatim>\<open>server\<close> while the newer server listens and a session is pending on it. The error
  message rejects the session with exactly its payload, "denied"; the router's \<^verbatim>\<open>catch\<close>
  calls \<^verbatim>\<open>stopRecordingServer\<close>, which finds no server to close, and the failure is returned
  in the same turn with the server still listening. The failure that the caller receives
  carries the default text, not "denied".
\<close>

theorem error_leaves_server_listening:
  "server (run late_close init) = None
   \<and> listening (endpoints (run late_close init) ! 1)
   \<and> recordingSocket (run late_close init) = Some 2
   \<and> rejectAudioPromise (run late_close init) = Some 1
   \<and> result (calls (run late_close init) ! 1) = Pending
   \<and> result (calls (run late_close_error init) ! 1) = Rejected (JsValue (JStr ''denied''))
   \<and> rpc (calls (run late_close_error init) ! 1) =
        Some (Failure (JStr ''Failed to start recording session''))
   \<and> listening (endpoints (run late_close_error init) ! 1)
   \<and> \<not> none_listening (run late_close_error init)"
  by (simp add: model traces none_listening_def)

section \<open>A second start\<close>

lemma step_idle_call:
  assumes "phase (calls (handle e s) ! c) \<noteq> Settled"
    and "\<And>k. phase (calls (handle e s) ! c) \<noteq> AwaitStop k"
  shows "calls (step e s) ! c = calls (handle e s) ! c"
  unfolding step_def using assms by (rule microtasks_idle)

text \<open>
  C1, amended. While a session is pending, with the server listening and a client registered,
  another \<^verbatim>\<open>startSession\<close> is not rejected, neither at once nor later: after
  \<^verbatim>\<open>shell.openExternal\<close> its first tick finds the client, sends the start command again and
  stores the resolver and rejecter of the new call in place of those of the first. The
  result of the first session stays pending.
\<close>

theorem second_start_replaces:
  assumes "server_listening s" and "\<not> no_port s" and "recordingSocket s = Some ws"
    and "resolveAudioPromise s = Some c0" and "rejectAudioPromise s = Some c0"
    and "c0 < length (calls s)" and "result (calls s ! c0) = Pending"
  shows "result (calls (step StartSession s) ! length (calls s)) = Pending
    \<and> calls (run [StartSession, OpenedExternal (length (calls s)) None, Tick (length (calls s))] s)
          ! length (calls s) = \<lparr>phase = AwaitAudio, result = Pending, rpc = None\<rparr>
    \<and> sent (run [StartSession, OpenedExternal (length (calls s)) None, Tick (length (calls s))] s)
        = sent s @ [(ws, Start)]
    \<and> resolveAudioPromise
         (run [StartSession, OpenedExternal (length (calls s)) None, Tick (length (calls s))] s)
        = Some (length (calls s))
    \<and> rejectAudioPromise
         (run [StartSession, OpenedExternal (length (calls s)) None, Tick (length (calls s))] s)
        = Some (length (calls s))
    \<and> result (calls
         (run [StartSession, OpenedExternal (length (calls s)) None, Tick (length (calls s))] s)
          ! c0) = Pending"
proof -
  let ?c = "length (calls s)"
  let ?t1 = "handle StartSession s"
  let ?s1 = "step StartSession s"
  let ?t2 = "handle (OpenedExternal ?c None) ?s1"
  let ?s2 = "step (OpenedExternal ?c None) ?s1"
  let ?t3 = "handle (Tick ?c) ?s2"
  let ?s3 = "step (Tick ?c) ?s2"
  have ne: "c0 \<noteq> ?c" using assms(6) by simp
  let ?s0 = "s\<lparr>calls := calls s @ [\<lparr>phase = AwaitGetPort, result = Pending, rpc = None\<rparr>]\<rparr>"
  have "server_listening ?s0 = server_listening s" "no_port ?s0 = no_port s"
    by (simp_all add: server_listening_def no_port_def split: option.splits)
  with assms(1,2) have start: "startRecordingSession s = set_phase ?c AwaitOpenExternal ?s0"
    by (simp add: startRecordingSession_def Let_def)
  have t1: "calls ?t1 ! ?c = \<lparr>phase = AwaitOpenExternal, result = Pending, rpc = None\<rparr>"
    "length (calls ?t1) = Suc ?c" "recordingSocket ?t1 = Some ws" "sent ?t1 = sent s"
    "result (calls ?t1 ! c0) = Pending"
    using assms(3,6,7) ne by (simp_all add: start set_phase_def nth_append)
  have s1: "calls ?s1 ! ?c = \<lparr>phase = AwaitOpenExternal, result = Pending, rpc = None\<rparr>"
    using t1(1) by (simp add: step_idle_call)
  have s1': "length (calls ?s1) = Suc ?c" "recordingSocket ?s1 = Some ws" "sent ?s1 = sent s"
    "result (calls ?s1 ! c0) = Pending"
    using t1 by (simp_all add: step_frame)
  have t2: "calls ?t2 ! ?c = \<lparr>phase = Polling 0, result = Pending, rpc = None\<rparr>"
    "length (calls ?t2) = Suc ?c" "recordingSocket ?t2 = Some ws" "sent ?t2 = sent s"
    "result (calls ?t2 ! c0) = Pending"
    using s1 s1' ne
    by (simp_all add: startRecordingSession_opened_def phase_of_def set_phase_def)
  have s2: "calls ?s2 ! ?c = \<lparr>phase = Polling 0, result = Pending, rpc = None\<rparr>"
    using t2(1) by (simp add: step_idle_call)
  have s2': "length (calls ?s2) = Suc ?c" "recordingSocket ?s2 = Some ws" "sent ?s2 = sent s"
    "result (calls ?s2 ! c0) = Pending"
    using t2 by (simp_all add: step_frame)
  have t3: "calls ?t3 ! ?c = \<lparr>phase = AwaitAudio, result = Pending, rpc = None\<rparr>"
    "sent ?t3 = sent s @ [(ws, Start)]"
    "resolveAudioPromise ?t3 = Some ?c" "rejectAudioPromise ?t3 = Some ?c"
    "result (calls ?t3 ! c0) = Pending"
    using s2 s2' ne
    by (simp_all add: startRecordingSession_tick_def phase_of_def set_phase_def send_def)
  have s3: "calls ?s3 ! ?c = \<lparr>phase = AwaitAudio, result = Pending, rpc = None\<rparr>"
    using t3(1) by (simp add: step_idle_call)
  have s3': "sent ?s3 = sent s @ [(ws, Start)]"
    "resolveAudioPromise ?s3 = Some ?c" "rejectAudioPromise ?s3 = Some ?c"
    "result (calls ?s3 ! c0) = Pending"
    using t3 by (simp_all add: step_frame)
  have "result (calls ?s1 ! ?c) = Pending" using s1 by simp
  with s3 s3' show ?thesis by (simp add: run_def)
qed

theorem second_start_replaces_witness:
  "(server_listening (run session_active init) \<and> \<not> no_port (run session_active init)
    \<and> recordingSocket (run session_active init) = Some 1
    \<and> resolveAudioPromise (run session_active init) = Some 0
    \<and> rejectAudioPromise (run session_active init) = Some 0
    \<and> 0 < length (calls (run session_active init))
    \<and> result (calls (run session_active init) ! 0) = Pending
    \<and> length (calls (run session_active init)) = 1)
   \<and> result (calls (step StartSession (run session_active init)) ! 1) = Pending
   \<and> calls (run [StartSession, OpenedExternal 1 None, Tick 1] (run session_active init)) ! 1
        = \<lparr>phase = AwaitAudio, result = Pending, rpc = None\<rparr>
   \<and> sent (run [StartSession, OpenedExternal 1 None, Tick 1] (run session_active init))
        = sent (run session_active init) @ [(1, Start)]
   \<and> resolveAudioPromise (run [StartSession, OpenedExternal 1 None, Tick 1] (run session_active init))
        = Some 1
   \<and> result (calls (run [StartSession, OpenedExternal 1 None, Tick 1] (run session_active init)) ! 0)
        = Pending"
proof -
  have h: "server_listening (run session_active init)" "\<not> no_port (run session_active init)"
    "recordingSocket (run session_active init) = Some 1"
    "resolveAudioPromise (run session_active init) = Some 0"
    "rejectAudioPromise (run session_active init) = Some 0"
    "0 < length (calls (run session_active init))"
    "result (calls (run session_active init) ! 0) = Pending"
    by (simp_all add: model traces)
  have l: "length (calls (run session_active init)) = 1"
    by (simp add: model traces)
  from second_start_replaces [OF h] h l show ?thesis by simp
qed

section \<open>A second audio message\<close>

text \<open>
  C4, amended. A result that has been settled is never settled again: no event changes it.
  When the resolver has been cleared, an audio message that arrives does not settle any
  session and raises nothing; its bytes are still written to a new recording file and
  \<^verbatim>\<open>audioFilePath\<close> is set to it, and then the warning is logged.
\<close>

theorem settled_result_stays:
  assumes "c < length (calls s)" and "result (calls s ! c) \<noteq> Pending"
    and "resolveAudioPromise s = None"
  shows "result (calls (step e s) ! c) = result (calls s ! c)
    \<and> map result (calls (run [Message ws (audioBlob_message text bs),
          MkdirDone (length (saves s)) None now, WriteDone (length (saves s)) None] s))
        = map result (calls s)
    \<and> files (run [Message ws (audioBlob_message text bs),
          MkdirDone (length (saves s)) None now, WriteDone (length (saves s)) None] s)
        = (files s)(Recording now := Some bs)
    \<and> audioFilePath (run [Message ws (audioBlob_message text bs),
          MkdirDone (length (saves s)) None now, WriteDone (length (saves s)) None] s)
        = Some (Recording now)
    \<and> (Warn, ''Audio saved but no promise resolver was waiting.'')
        \<in> set (console (run [Message ws (audioBlob_message text bs),
              MkdirDone (length (saves s)) None now, WriteDone (length (saves s)) None] s))"
proof -
  let ?k = "length (saves s)"
  let ?t1 = "handle (Message ws (audioBlob_message text bs)) s"
  let ?s1 = "step (Message ws (audioBlob_message text bs)) s"
  let ?t2 = "handle (MkdirDone ?k None now) ?s1"
  let ?s2 = "step (MkdirDone ?k None now) ?s1"
  let ?t3 = "handle (WriteDone ?k None) ?s2"
  let ?s3 = "step (WriteDone ?k None) ?s2"
  have once: "result (calls (step e s) ! c) = result (calls s ! c)"
    using handle_result_kept [OF assms(1,2), of e] by (simp add: step_frame)
  have t1: "calls ?t1 = calls s" "saves ?t1 = saves s @ [AwaitMkdir bs]" "files ?t1 = files s"
    "resolveAudioPromise ?t1 = None"
    using assms(3) by (simp_all add: audioBlob_handled saveAudioData_def)
  have s1: "saves ?s1 = saves s @ [AwaitMkdir bs]" "files ?s1 = files s"
    "resolveAudioPromise ?s1 = None" "length (calls ?s1) = length (calls s)"
    "\<And>i. result (calls ?s1 ! i) = result (calls s ! i)"
    using t1 by (simp_all add: step_frame)
  have t2: "calls ?t2 = calls ?s1" "saves ?t2 = (saves ?s1)[?k := AwaitWrite (Recording now) bs]"
    "files ?t2 = files s" "resolveAudioPromise ?t2 = None" "audioFilePath ?t2 = Some (Recording now)"
    using s1 by (simp_all add: saveAudioData_mkdir_def)
  have s2: "saves ?s2 ! ?k = AwaitWrite (Recording now) bs" "?k < length (saves ?s2)"
    "files ?s2 = files s" "resolveAudioPromise ?s2 = None" "audioFilePath ?s2 = Some (Recording now)"
    "length (calls ?s2) = length (calls s)"
    "\<And>i. result (calls ?s2 ! i) = result (calls s ! i)"
    using t2 s1 by (simp_all add: step_frame)
  have t3: "calls ?t3 = calls ?s2" "files ?t3 = (files s)(Recording now := Some bs)"
    "audioFilePath ?t3 = Some (Recording now)"
    "(Warn, ''Audio saved but no promise resolver was waiting.'') \<in> set (console ?t3)"
    using s2 by (simp_all add: saveAudioData_write_def Let_def saveAudioData_finally_def console_warn_def)
  have s3: "files ?s3 = (files s)(Recording now := Some bs)"
    "audioFilePath ?s3 = Some (Recording now)"
    "length (calls ?s3) = length (calls s)"
    "\<And>i. result (calls ?s3 ! i) = result (calls s ! i)"
    using t3 s2 by (simp_all add: step_frame)
  have w: "(Warn, ''Audio saved but no promise resolver was waiting.'') \<in> set (console ?s3)"
    using t3(4) resume_all_console [of ?t3 "length (calls ?t3)"]
    by (auto simp add: step_def microtasks_def)
  have m: "map result (calls ?s3) = map result (calls s)"
    using s3(3,4) by (simp add: list_eq_iff_nth_eq)
  from once m s3 w show ?thesis by (simp add: run_def)
qed

theorem settled_result_stays_witness:
  "(0 < length (calls (run first_audio init))
    \<and> result (calls (run first_audio init) ! 0) \<noteq> Pending
    \<and> resolveAudioPromise (run first_audio init) = None
    \<and> length (saves (run first_audio init)) = 1)
   \<and> result (calls (step (Message 1 (error_message [] ''late'')) (run first_audio init)) ! 0)
        = result (calls (run first_audio init) ! 0)
   \<and> map result (calls (run [Message 1 (audioBlob_message [] [4, 5]), MkdirDone 1 None 200,
         WriteDone 1 None] (run first_audio init)))
        = map result (calls (run first_audio init))
   \<and> files (run [Message 1 (audioBlob_message [] [4, 5]), MkdirDone 1 None 200,
         WriteDone 1 None] (run first_audio init))
        = (files (run first_audio init))(Recording 200 := Some [4, 5])"
proof -
  have h: "0 < length (calls (run first_audio init))"
    "result (calls (run first_audio init) ! 0) \<noteq> Pending"
    "resolveAudioPromise (run first_audio init) = None"
    by (simp_all add: model traces)
  have l: "length (saves (run first_audio init)) = 1"
    by (simp add: model traces)
  from settled_result_stays [OF h, of "Message 1 (error_message [] ''late'')" 1 "[]" "[4, 5]" 200] h l
  show ?thesis by simp
qed

section \<open>A save on its own\<close>

text \<open>When the save that finishes is the one whose path is stored, the session is resolved with
  the path of a file that holds the whole buffer; when \<^verbatim>\<open>writeFile\<close> or \<^verbatim>\<open>mkdir\<close> fails, the
  stored path is cleared and the session is rejected with the error.\<close>

lemma write_alone:
  assumes "k < length (saves s)" and "saves s ! k = AwaitWrite p buffer"
    and "audioFilePath s = Some p"
    and "resolveAudioPromise s = Some c" and "rejectAudioPromise s = Some c"
    and "c < length (calls s)" and "result (calls s ! c) = Pending"
  shows "result (calls (step (WriteDone k None) s) ! c) = Resolved (Some p)"
    and "files (step (WriteDone k None) s) p = Some buffer"
    and "result (calls (step (WriteDone k (Some (err, left))) s) ! c) = Rejected (JsError err)"
    and "audioFilePath (step (WriteDone k (Some (err, left))) s) = None"
  using assms
  by (simp_all add: step_frame saveAudioData_write_def saveAudioData_catch_def
        saveAudioData_finally_def reject_pending_def settle_def console_error_def Let_def)

lemma mkdir_alone:
  assumes "k < length (saves s)" and "saves s ! k = AwaitMkdir buffer"
    and "rejectAudioPromise s = Some c"
    and "c < length (calls s)" and "result (calls s ! c) = Pending"
  shows "result (calls (step (MkdirDone k (Some err) now) s) ! c) = Rejected (JsError err)"
    and "audioFilePath (step (MkdirDone k (Some err) now) s) = None"
    and "files (step (MkdirDone k (Some err) now) s) = files s"
  using assms
  by (simp_all add: step_frame saveAudioData_mkdir_def saveAudioData_catch_def
        saveAudioData_finally_def reject_pending_def settle_def console_error_def Let_def)

end
